theory Spec2Isabelle
  imports
    Complex_Main
    "HOL-Library.Char_ord"
    "HOL-Library.List_Lexorder"
    "HOL-Library.Product_Lexorder"
    "HOL-Library.Multiset"
begin

section \<open>The concert export (export\_to\_web.py) as HOL functions\<close>

text \<open>
  The script reads five Firestore collections and writes static JSON files. Each stage of
  \<^verbatim>\<open>export_to_json\<close> is a function here, from the documents read to the value
  that is dumped.

  Conventions of the embedding:
  \<^item> A Firestore document is a record whose fields are options: \<open>None\<close> is a key that
    is absent, so \<^verbatim>\<open>d.get(k, default)\<close> is a case on the option. A field that is
    present holds a value of the type the data model gives it (a string, an integer, a
    boolean, a list); null values and values of another type are outside the model.
  \<^item> A collection is the list of its documents in stream order, each a pair of the
    document id and the record.
  \<^item> A Python \<^verbatim>\<open>dict\<close> is an association list in insertion order with one entry per key.
  \<^item> A string is a list of characters, compared as Python compares \<^verbatim>\<open>str\<close>: by
    code point, a proper prefix first. Characters are code points below 256.
  \<^item> Python integers are \<open>int\<close>; counters that start at 0 and only grow are \<open>nat\<close>.
  \<^item> The three later reads of the \<^verbatim>\<open>setlists\<close> collection see the same snapshot
    as the first.
\<close>

subsection \<open>Documents\<close>

record artist_ref =
  ar_artist_id :: "string option"
  ar_artist_name :: "string option"
  ar_role :: "string option"

record concert =
  c_show_number :: "int option"
  c_date :: "string option"
  c_festival_name :: "string option"
  c_venue_id :: "string option"
  c_venue_name :: "string option"
  c_city :: "string option"
  c_state :: "string option"
  c_artists :: "artist_ref list option"
  c_setlist_status :: "string option"
  c_has_setlist :: "bool option"
  c_opening_song :: "string option"
  c_closing_song :: "string option"

record song =
  sg_position :: "int option"
  sg_name :: "string option"
  sg_set_name :: "string option"
  sg_encore :: "int option"
  sg_is_cover :: "bool option"
  sg_cover_artist :: "string option"
  sg_guest_artist :: "string option"

record setlist =
  sl_concert_id :: "string option"
  sl_artist_id :: "string option"
  sl_artist_name :: "string option"
  sl_songs :: "song list option"
  sl_song_count :: "int option"
  sl_has_encore :: "bool option"
  sl_tour_name :: "string option"
  sl_setlistfm_url :: "string option"

record artist_doc =
  ad_canonical_name :: "string option"

record venue_doc =
  vd_canonical_name :: "string option"
  vd_city :: "string option"
  vd_state :: "string option"

subsection \<open>Python primitives\<close>

text \<open>\<^verbatim>\<open>d.get(k, default)\<close>.\<close>

definition get_or :: "'a \<Rightarrow> 'a option \<Rightarrow> 'a" where
  "get_or dflt v = (case v of None \<Rightarrow> dflt | Some x \<Rightarrow> x)"

text \<open>Truth value of \<^verbatim>\<open>d.get(k)\<close> for a string field: absent and empty are false.\<close>

definition truthy :: "string option \<Rightarrow> bool" where
  "truthy v = (case v of None \<Rightarrow> False | Some s \<Rightarrow> s \<noteq> [])"

text \<open>\<^verbatim>\<open>m[k] = v\<close> on a dict: a key that is present keeps its place.\<close>

fun dict_set :: "'k \<Rightarrow> 'v \<Rightarrow> ('k \<times> 'v) list \<Rightarrow> ('k \<times> 'v) list" where
  "dict_set k v [] = [(k, v)]"
| "dict_set k v ((k', v') # m) =
     (if k' = k then (k', v) # m else (k', v') # dict_set k v m)"

text \<open>\<^verbatim>\<open>m[k].append(x)\<close> on a \<^verbatim>\<open>defaultdict(list)\<close>.\<close>

fun dict_append :: "'k \<Rightarrow> 'v \<Rightarrow> ('k \<times> 'v list) list \<Rightarrow> ('k \<times> 'v list) list" where
  "dict_append k x [] = [(k, [x])]"
| "dict_append k x ((k', xs) # m) =
     (if k' = k then (k', xs @ [x]) # m else (k', xs) # dict_append k x m)"

text \<open>\<^verbatim>\<open>m[k] += 1\<close> on a \<^verbatim>\<open>defaultdict(int)\<close>, and \<^verbatim>\<open>m.get(k, 0)\<close>.\<close>

fun incr :: "'k \<Rightarrow> ('k \<times> nat) list \<Rightarrow> ('k \<times> nat) list" where
  "incr k [] = [(k, 1)]"
| "incr k ((k', n) # m) = (if k' = k then (k', Suc n) # m else (k', n) # incr k m)"

definition count_of :: "('k \<times> nat) list \<Rightarrow> 'k \<Rightarrow> nat" where
  "count_of m k = (case map_of m k of None \<Rightarrow> 0 | Some n \<Rightarrow> n)"

text \<open>\<^verbatim>\<open>m[a][s] += 1\<close> on a \<^verbatim>\<open>defaultdict(lambda: defaultdict(int))\<close>.\<close>

fun incr2 :: "'a \<Rightarrow> 'k \<Rightarrow> ('a \<times> ('k \<times> nat) list) list \<Rightarrow> ('a \<times> ('k \<times> nat) list) list" where
  "incr2 a k [] = [(a, [(k, 1)])]"
| "incr2 a k ((a', d) # m) =
     (if a' = a then (a', incr k d) # m else (a', d) # incr2 a k m)"

definition count2_of :: "('a \<times> ('k \<times> nat) list) list \<Rightarrow> 'a \<Rightarrow> 'k \<Rightarrow> nat" where
  "count2_of m a k = (case map_of m a of None \<Rightarrow> 0 | Some d \<Rightarrow> count_of d k)"

text \<open>\<^verbatim>\<open>', '.join(xs)\<close>.\<close>

fun join_comma :: "string list \<Rightarrow> string" where
  "join_comma [] = []"
| "join_comma [x] = x"
| "join_comma (x # y # ys) = x @ '', '' @ join_comma (y # ys)"

text \<open>
  \<^verbatim>\<open>xs.sort(key=f, reverse=True)\<close> and \<^verbatim>\<open>sorted(xs, key=f, reverse=True)\<close>:
  the sort is stable, and with \<^verbatim>\<open>reverse=True\<close> elements with equal keys keep
  their order (CPython reverses the list, sorts it and reverses it again).
\<close>

definition sort_key_desc :: "('a \<Rightarrow> 'k::linorder) \<Rightarrow> 'a list \<Rightarrow> 'a list" where
  "sort_key_desc f xs = rev (sort_key f (rev xs))"

subsection \<open>Stage 1: the concert list\<close>

record concert_row =
  row_id :: string
  row_show_number :: "int option"
  row_date :: string
  row_festival_name :: "string option"
  row_venue :: string
  row_city :: string
  row_state :: string
  row_artists :: string
  row_hasSetlist :: bool
  row_setlist_status :: string

definition is_primary :: "artist_ref \<Rightarrow> bool" where
  "is_primary a = (ar_role a = Some ''headliner'' \<or> ar_role a = Some ''festival_performer'')"

definition primary_artists :: "concert \<Rightarrow> artist_ref list" where
  "primary_artists d = filter is_primary (get_or [] (c_artists d))"

definition artist_names :: "concert \<Rightarrow> string" where
  "artist_names d = join_comma (map (\<lambda>a. get_or [] (ar_artist_name a)) (primary_artists d))"

definition concert_row_of :: "string \<Rightarrow> concert \<Rightarrow> concert_row" where
  "concert_row_of cid d =
     \<lparr> row_id = cid,
       row_show_number = c_show_number d,
       row_date = get_or [] (c_date d),
       row_festival_name = c_festival_name d,
       row_venue = get_or [] (c_venue_name d),
       row_city = get_or [] (c_city d),
       row_state = get_or [] (c_state d),
       row_artists = artist_names d,
       row_hasSetlist = False,
       row_setlist_status = get_or ''not_researched'' (c_setlist_status d) \<rparr>"

definition concerts_list :: "(string \<times> concert) list \<Rightarrow> concert_row list" where
  "concerts_list docs = map (\<lambda>(cid, d). concert_row_of cid d) docs"

text \<open>A dict built from a stream of documents: \<^verbatim>\<open>m[doc.id] = ...\<close> for each.\<close>

definition dict_of :: "('k \<times> 'v) list \<Rightarrow> ('k \<times> 'v) list" where
  "dict_of docs = fold (\<lambda>p m. dict_set (fst p) (snd p) m) docs []"

definition all_concerts_data :: "(string \<times> concert) list \<Rightarrow> (string \<times> concert) list" where
  "all_concerts_data docs = dict_of docs"

subsection \<open>Stage 2: setlists grouped by concert, and the concert details\<close>

text \<open>One setlist document: kept when its concert id is non-empty and a loaded concert's.\<close>

definition group_setlist ::
  "(string \<times> concert) list \<Rightarrow> setlist \<Rightarrow> (string \<times> setlist list) list \<Rightarrow>
     (string \<times> setlist list) list" where
  "group_setlist acd s m =
     (if truthy (sl_concert_id s) \<and> get_or [] (sl_concert_id s) \<in> set (map fst acd)
      then dict_append (get_or [] (sl_concert_id s)) s m else m)"

definition setlists_by_concert ::
  "(string \<times> concert) list \<Rightarrow> setlist list \<Rightarrow> (string \<times> setlist list) list" where
  "setlists_by_concert acd sls = fold (group_setlist acd) sls []"

record song_obj =
  fs_position :: int
  fs_name :: string
  fs_set_name :: string
  fs_encore :: int
  fs_is_cover :: bool
  fs_cover_artist :: "string option"
  fs_guest_artist :: "string option"

text \<open>The key \<^verbatim>\<open>guest_artist\<close> is written only when the song has a non-empty one.\<close>

definition format_song :: "song \<Rightarrow> song_obj" where
  "format_song g =
     \<lparr> fs_position = get_or 0 (sg_position g),
       fs_name = get_or [] (sg_name g),
       fs_set_name = get_or [] (sg_set_name g),
       fs_encore = get_or 0 (sg_encore g),
       fs_is_cover = get_or False (sg_is_cover g),
       fs_cover_artist = sg_cover_artist g,
       fs_guest_artist = (if truthy (sg_guest_artist g) then sg_guest_artist g else None) \<rparr>"

definition formatted_songs :: "setlist \<Rightarrow> song_obj list" where
  "formatted_songs s = map format_song (get_or [] (sl_songs s))"

text \<open>
  \<^verbatim>\<open>artist_roles\<close>: the dict comprehension from artist name to role over the
  concert's roster. The key is \<^verbatim>\<open>a.get('artist_name')\<close>, which is \<open>None\<close> for an
  entry without a name; a later entry of the same name replaces the role.
\<close>

definition artist_roles :: "concert \<Rightarrow> (string option \<times> string) list" where
  "artist_roles d =
     fold (\<lambda>a m. dict_set (ar_artist_name a) (get_or ''headliner'' (ar_role a)) m)
       (get_or [] (c_artists d)) []"

definition setlist_role :: "concert \<Rightarrow> setlist \<Rightarrow> string" where
  "setlist_role d s = get_or ''headliner'' (map_of (artist_roles d) (sl_artist_name s))"

text \<open>
  \<^verbatim>\<open>role_priority.get(r, 2)\<close> with
  \<^verbatim>\<open>role_priority = {'opener': 1, 'headliner': 2, 'festival_performer': 2}\<close>.
\<close>

definition role_priority :: "string \<Rightarrow> int" where
  "role_priority r =
     get_or 2 (map_of [(''opener'', 1), (''headliner'', 2), (''festival_performer'', 2)] r)"

definition setlist_sort_key :: "concert \<Rightarrow> setlist \<Rightarrow> int \<times> string" where
  "setlist_sort_key d s = (role_priority (setlist_role d s), get_or [] (sl_artist_name s))"

definition sorted_setlists :: "concert \<Rightarrow> setlist list \<Rightarrow> setlist list" where
  "sorted_setlists d sls = sort_key (setlist_sort_key d) sls"

record setlist_obj =
  fsl_artist_id :: "string option"
  fsl_artist_name :: "string option"
  fsl_artist_role :: string
  fsl_setlistfm_url :: "string option"
  fsl_song_count :: int
  fsl_has_encore :: bool
  fsl_songs :: "song_obj list"
  fsl_tour_name :: "string option"

definition format_setlist :: "concert \<Rightarrow> setlist \<Rightarrow> setlist_obj" where
  "format_setlist d s =
     \<lparr> fsl_artist_id = sl_artist_id s,
       fsl_artist_name = sl_artist_name s,
       fsl_artist_role = setlist_role d s,
       fsl_setlistfm_url = sl_setlistfm_url s,
       fsl_song_count = get_or 0 (sl_song_count s),
       fsl_has_encore = get_or False (sl_has_encore s),
       fsl_songs = formatted_songs s,
       fsl_tour_name = (if truthy (sl_tour_name s) then sl_tour_name s else None) \<rparr>"

text \<open>
  \<^verbatim>\<open>tour_names\<close> is a Python set: the distinct non-empty tour names of the
  setlists. Only its size and, when the size is 1, its element are read.
\<close>

definition tour_names :: "setlist list \<Rightarrow> string list" where
  "tour_names sls = remdups (map (\<lambda>s. get_or [] (sl_tour_name s)) (filter (\<lambda>s. truthy (sl_tour_name s)) sls))"

datatype setlist_part =
    SingleSetlist (ss_setlistfm_url: "string option") (ss_song_count: int)
      (ss_has_encore: bool) (ss_songs: "song_obj list")
  | MultiSetlist (ms_setlists: "setlist_obj list") (ms_total_song_count: int)
      (ms_has_encore: bool)

text \<open>
  The detail object of one concert. The photos (a separate query, copied into the object)
  are left out: nothing else in the object depends on them.
  \<open>cd_tour_name = None\<close> is a detail object without the key \<^verbatim>\<open>tour_name\<close>.
\<close>

record concert_detail =
  cd_id :: string
  cd_show_number :: "int option"
  cd_date :: string
  cd_festival_name :: "string option"
  cd_venue :: string
  cd_city :: string
  cd_state :: string
  cd_artists :: "(string \<times> string) list"
  cd_setlist_part :: setlist_part
  cd_tour_name :: "string option"

definition single_part :: "setlist \<Rightarrow> setlist_part" where
  "single_part s =
     SingleSetlist (sl_setlistfm_url s) (get_or 0 (sl_song_count s))
       (get_or False (sl_has_encore s)) (formatted_songs s)"

definition multi_part :: "concert \<Rightarrow> setlist list \<Rightarrow> setlist_part" where
  "multi_part d sls =
     MultiSetlist (map (format_setlist d) (sorted_setlists d sls))
       (sum_list (map (\<lambda>s. get_or 0 (sl_song_count s)) (sorted_setlists d sls)))
       (list_ex (\<lambda>s. get_or False (sl_has_encore s)) (sorted_setlists d sls))"

definition multi_tour_name :: "concert \<Rightarrow> setlist list \<Rightarrow> string option" where
  "multi_tour_name d sls =
     (case tour_names (sorted_setlists d sls) of [t] \<Rightarrow> Some t | _ \<Rightarrow> None)"

definition concert_detail_of :: "string \<Rightarrow> concert \<Rightarrow> setlist list \<Rightarrow> concert_detail" where
  "concert_detail_of cid d setlist_list =
     \<lparr> cd_id = cid,
       cd_show_number = c_show_number d,
       cd_date = get_or [] (c_date d),
       cd_festival_name = c_festival_name d,
       cd_venue = get_or [] (c_venue_name d),
       cd_city = get_or [] (c_city d),
       cd_state = get_or [] (c_state d),
       cd_artists = map (\<lambda>a. (get_or [] (ar_artist_name a), get_or [] (ar_role a)))
                      (get_or [] (c_artists d)),
       cd_setlist_part =
         (case setlist_list of [s] \<Rightarrow> single_part s | _ \<Rightarrow> multi_part d setlist_list),
       cd_tour_name =
         (case setlist_list of
            [s] \<Rightarrow> (if truthy (sl_tour_name s) then sl_tour_name s else None)
          | _ \<Rightarrow> multi_tour_name d setlist_list) \<rparr>"

text \<open>
  The files written to \<^verbatim>\<open>concert_details/\<close>: one per key of the grouping, named by
  the concert id. Every key is a key of \<open>acd\<close>, so the lookup
  \<^verbatim>\<open>all_concerts_data[concert_id]\<close> succeeds.
\<close>

definition detail_file ::
  "(string \<times> concert) list \<Rightarrow> string \<times> setlist list \<Rightarrow> (string \<times> concert_detail) list" where
  "detail_file acd item =
     (case map_of acd (fst item) of
        None \<Rightarrow> []
      | Some d \<Rightarrow> [(fst item, concert_detail_of (fst item) d (snd item))])"

definition concert_details ::
  "(string \<times> concert) list \<Rightarrow> setlist list \<Rightarrow> (string \<times> concert_detail) list" where
  "concert_details acd sls =
     concat (map (detail_file acd) (setlists_by_concert acd sls))"

text \<open>
  The directory \<^verbatim>\<open>concert_details/\<close> as the list of the stems of its
  \<^verbatim>\<open>*.json\<close> files: \<open>dir0\<close> before the run. Writing \<^verbatim>\<open><id>.json\<close> adds
  the stem \<open>id\<close> (for a non-empty id without a slash, the stem of the file name is the id);
  the cleanup unlinks every file whose stem is not a key of the grouping.
\<close>

definition write_file :: "string \<Rightarrow> string list \<Rightarrow> string list" where
  "write_file f dir = (if f \<in> set dir then dir else dir @ [f])"

definition detail_dir_after ::
  "(string \<times> concert) list \<Rightarrow> setlist list \<Rightarrow> string list \<Rightarrow> string list" where
  "detail_dir_after acd sls dir0 =
     filter (\<lambda>f. f \<in> set (map fst (setlists_by_concert acd sls)))
       (fold write_file (map fst (concert_details acd sls)) dir0)"

text \<open>\<^verbatim>\<open>concerts.json\<close>: the rows of stage 1 with \<^verbatim>\<open>hasSetlist\<close> patched.\<close>

definition concerts_json :: "(string \<times> concert) list \<Rightarrow> setlist list \<Rightarrow> concert_row list" where
  "concerts_json docs sls =
     map (\<lambda>row. if row_id row \<in> set (map fst (setlists_by_concert (all_concerts_data docs) sls))
                 then row\<lparr>row_hasSetlist := True\<rparr> else row)
       (concerts_list docs)"

subsection \<open>Stages 3 and 4: artists.json and venues.json\<close>

definition artist_names_map :: "(string \<times> artist_doc) list \<Rightarrow> (string \<times> string) list" where
  "artist_names_map artist_docs =
     dict_of (map (\<lambda>doc. (fst doc, get_or [] (ad_canonical_name (snd doc)))) artist_docs)"

definition count_artist :: "artist_ref \<Rightarrow> (string \<times> nat) list \<Rightarrow> (string \<times> nat) list" where
  "count_artist a m = (if truthy (ar_artist_id a) then incr (get_or [] (ar_artist_id a)) m else m)"

definition count_concert_artists :: "concert \<Rightarrow> (string \<times> nat) list \<Rightarrow> (string \<times> nat) list" where
  "count_concert_artists d m = fold count_artist (get_or [] (c_artists d)) m"

definition artist_concert_counts :: "(string \<times> concert) list \<Rightarrow> (string \<times> nat) list" where
  "artist_concert_counts acd = fold count_concert_artists (map snd acd) []"

record artist_entry =
  aj_id :: string
  aj_name :: string
  aj_concert_count :: nat

definition artist_entries :: "(string \<times> concert) list \<Rightarrow> (string \<times> string) list \<Rightarrow> artist_entry list" where
  "artist_entries acd names_map =
     map (\<lambda>item. \<lparr> aj_id = fst item, aj_name = snd item,
                     aj_concert_count = count_of (artist_concert_counts acd) (fst item) \<rparr>)
       (filter (\<lambda>item. count_of (artist_concert_counts acd) (fst item) > 0) names_map)"

definition artist_sort_key :: "artist_entry \<Rightarrow> int \<times> string" where
  "artist_sort_key x = (- int (aj_concert_count x), aj_name x)"

definition artists_json :: "(string \<times> concert) list \<Rightarrow> (string \<times> artist_doc) list \<Rightarrow> artist_entry list" where
  "artists_json acd artist_docs =
     sort_key artist_sort_key (artist_entries acd (artist_names_map artist_docs))"

definition venue_data_map :: "(string \<times> venue_doc) list \<Rightarrow> (string \<times> venue_doc) list" where
  "venue_data_map venue_docs = dict_of venue_docs"

definition count_concert_venue :: "concert \<Rightarrow> (string \<times> nat) list \<Rightarrow> (string \<times> nat) list" where
  "count_concert_venue d m = (if truthy (c_venue_id d) then incr (get_or [] (c_venue_id d)) m else m)"

definition venue_concert_counts :: "(string \<times> concert) list \<Rightarrow> (string \<times> nat) list" where
  "venue_concert_counts acd = fold count_concert_venue (map snd acd) []"

record venue_entry =
  vj_id :: string
  vj_name :: string
  vj_city :: string
  vj_state :: string
  vj_concert_count :: nat

definition venue_entries :: "(string \<times> concert) list \<Rightarrow> (string \<times> venue_doc) list \<Rightarrow> venue_entry list" where
  "venue_entries acd vmap =
     map (\<lambda>item. \<lparr> vj_id = fst item,
                     vj_name = get_or [] (vd_canonical_name (snd item)),
                     vj_city = get_or [] (vd_city (snd item)),
                     vj_state = get_or [] (vd_state (snd item)),
                     vj_concert_count = count_of (venue_concert_counts acd) (fst item) \<rparr>)
       (filter (\<lambda>item. count_of (venue_concert_counts acd) (fst item) > 0) vmap)"

definition venue_sort_key :: "venue_entry \<Rightarrow> int \<times> string" where
  "venue_sort_key x = (- int (vj_concert_count x), vj_name x)"

definition venues_json :: "(string \<times> concert) list \<Rightarrow> (string \<times> venue_doc) list \<Rightarrow> venue_entry list" where
  "venues_json acd venue_docs =
     sort_key venue_sort_key (venue_entries acd (venue_data_map venue_docs))"

subsection \<open>Stage 5: stats.json\<close>

datatype py_error = ValueError

text \<open>
  \<^verbatim>\<open>int(s)\<close> on a string, base 10: white space is stripped at both ends, one sign
  may lead, and what is left must be decimal digits, with single underscores allowed
  between digits; anything else raises \<^verbatim>\<open>ValueError\<close>. Below code point 256 the
  white space of \<^verbatim>\<open>int\<close> is tab, line feed, vertical tab, form feed, carriage
  return, space, NEL (133) and the no-break space (160), and the decimal digits are
  \<^verbatim>\<open>0\<close> to \<^verbatim>\<open>9\<close>.
\<close>

definition py_isspace :: "char \<Rightarrow> bool" where
  "py_isspace c = ((of_char c :: nat) \<in> {9, 10, 11, 12, 13, 32, 133, 160})"

definition py_isdigit :: "char \<Rightarrow> bool" where
  "py_isdigit c = (48 \<le> (of_char c :: nat) \<and> (of_char c :: nat) \<le> 57)"

definition digit_value :: "char \<Rightarrow> nat" where
  "digit_value c = of_char c - 48"

definition py_strip :: "string \<Rightarrow> string" where
  "py_strip s = rev (dropWhile py_isspace (rev (dropWhile py_isspace s)))"

text \<open>The digits after the sign; \<open>prev\<close> says that the character before was a digit.\<close>

fun parse_digits :: "bool \<Rightarrow> nat \<Rightarrow> string \<Rightarrow> nat option" where
  "parse_digits prev acc [] = (if prev then Some acc else None)"
| "parse_digits prev acc (c # cs) =
     (if py_isdigit c then parse_digits True (10 * acc + digit_value c) cs
      else if c = CHR ''_'' \<and> prev \<and> cs \<noteq> [] then parse_digits False acc cs
      else None)"

definition py_int :: "string \<Rightarrow> py_error + int" where
  "py_int s =
     (case py_strip s of
        [] \<Rightarrow> Inl ValueError
      | c # cs \<Rightarrow>
          (if c = CHR ''-'' then
             (case parse_digits False 0 cs of None \<Rightarrow> Inl ValueError | Some n \<Rightarrow> Inr (- int n))
           else if c = CHR ''+'' then
             (case parse_digits False 0 cs of None \<Rightarrow> Inl ValueError | Some n \<Rightarrow> Inr (int n))
           else
             (case parse_digits False 0 (c # cs) of None \<Rightarrow> Inl ValueError | Some n \<Rightarrow> Inr (int n))))"

text \<open>
  The loop that fills \<^verbatim>\<open>concerts_by_year_dict\<close>. \<^verbatim>\<open>int(date_str[:4])\<close> is not
  guarded: its \<^verbatim>\<open>ValueError\<close> leaves the loop and ends the run.
\<close>

fun concerts_by_year_dict :: "concert list \<Rightarrow> (int \<times> nat) list \<Rightarrow> py_error + (int \<times> nat) list" where
  "concerts_by_year_dict [] m = Inr m"
| "concerts_by_year_dict (d # ds) m =
     (if get_or [] (c_date d) \<noteq> [] \<and> 4 \<le> length (get_or [] (c_date d)) then
        (case py_int (take 4 (get_or [] (c_date d))) of
           Inl e \<Rightarrow> Inl e
         | Inr year \<Rightarrow> concerts_by_year_dict ds (incr year m))
      else concerts_by_year_dict ds m)"

definition concerts_by_year :: "(string \<times> concert) list \<Rightarrow> py_error + (int \<times> nat) list" where
  "concerts_by_year acd =
     (case concerts_by_year_dict (map snd acd) [] of
        Inl e \<Rightarrow> Inl e
      | Inr m \<Rightarrow> Inr (sort_key_desc (\<lambda>item. item) m))"

definition total_songs :: "setlist list \<Rightarrow> int" where
  "total_songs sls = fold (\<lambda>s total. total + get_or 0 (sl_song_count s)) sls 0"

text \<open>The statistics object, without \<^verbatim>\<open>generated_at\<close> (the wall clock).\<close>

record stats =
  stat_total_concerts :: nat
  stat_concerts_with_setlists :: nat
  stat_total_songs :: int
  stat_total_artists :: nat
  stat_total_venues :: nat
  stat_top_artists :: "(string \<times> nat) list"
  stat_top_venues :: "(string \<times> nat) list"
  stat_concerts_by_year :: "(int \<times> nat) list"

definition stats_json ::
  "(string \<times> concert) list \<Rightarrow> setlist list \<Rightarrow> artist_entry list \<Rightarrow> venue_entry list \<Rightarrow>
     py_error + stats" where
  "stats_json acd sls artists venues =
     (case concerts_by_year acd of
        Inl e \<Rightarrow> Inl e
      | Inr by_year \<Rightarrow>
          Inr \<lparr> stat_total_concerts = length (filter (\<lambda>d. truthy (c_date d)) (map snd acd)),
                stat_concerts_with_setlists =
                  length (remdups (map fst (setlists_by_concert acd sls))),
                stat_total_songs = total_songs sls,
                stat_total_artists = length (filter (\<lambda>a. aj_concert_count a > 0) artists),
                stat_total_venues = length (filter (\<lambda>v. vj_concert_count v > 0) venues),
                stat_top_artists = map (\<lambda>a. (aj_name a, aj_concert_count a)) (take 10 artists),
                stat_top_venues = map (\<lambda>v. (vj_name v, vj_concert_count v)) (take 10 venues),
                stat_concerts_by_year = by_year \<rparr>)"

subsection \<open>Stage 6: songs.json\<close>

record song_tables =
  st_song_counts :: "(string \<times> nat) list"
  st_song_cover_counts :: "(string \<times> nat) list"
  st_opening_songs :: "(string \<times> (string \<times> nat) list) list"
  st_closing_songs :: "(string \<times> (string \<times> nat) list) list"
  st_encore_songs :: "(string \<times> (string \<times> nat) list) list"

definition empty_tables :: song_tables where
  "empty_tables =
     \<lparr> st_song_counts = [], st_song_cover_counts = [], st_opening_songs = [],
       st_closing_songs = [], st_encore_songs = [] \<rparr>"

definition is_opening :: "song \<Rightarrow> bool" where
  "is_opening g =
     (get_or 0 (sg_position g) = 1 \<and>
      (get_or [] (sg_set_name g) = ''Main Set'' \<or> get_or [] (sg_set_name g) = [] \<or>
       get_or 0 (sg_encore g) = 0))"

text \<open>The body of \<^verbatim>\<open>for artist in primary_artists\<close> for one song.\<close>

definition credit_song :: "song \<Rightarrow> artist_ref \<Rightarrow> song_tables \<Rightarrow> song_tables" where
  "credit_song g a t =
     (let t1 = (if is_opening g
                then t\<lparr>st_opening_songs :=
                         incr2 (get_or [] (ar_artist_name a)) (get_or [] (sg_name g))
                           (st_opening_songs t)\<rparr>
                else t)
      in if get_or 0 (sg_encore g) > 0
         then t1\<lparr>st_encore_songs :=
                   incr2 (get_or [] (ar_artist_name a)) (get_or [] (sg_name g))
                     (st_encore_songs t1)\<rparr>
         else t1)"

text \<open>The body of \<^verbatim>\<open>for song in songs\<close>; a song without a name is skipped.\<close>

definition count_song :: "artist_ref list \<Rightarrow> song \<Rightarrow> song_tables \<Rightarrow> song_tables" where
  "count_song primary g t =
     (if get_or [] (sg_name g) = [] then t
      else
        (let t1 = t\<lparr>st_song_counts := incr (get_or [] (sg_name g)) (st_song_counts t)\<rparr>;
             t2 = (if get_or False (sg_is_cover g)
                   then t1\<lparr>st_song_cover_counts :=
                             incr (get_or [] (sg_name g)) (st_song_cover_counts t1)\<rparr>
                   else t1)
         in fold (credit_song g) primary t2))"

definition non_encore_songs :: "song list \<Rightarrow> song list" where
  "non_encore_songs songs = filter (\<lambda>s. get_or 0 (sg_encore s) = 0) songs"

text \<open>
  \<^verbatim>\<open>max(xs, key=f)\<close> on a non-empty list \<open>best # xs\<close>: the maximum so far is
  replaced only by an item whose key is greater.
\<close>

fun py_max_by :: "('a \<Rightarrow> int) \<Rightarrow> 'a \<Rightarrow> 'a list \<Rightarrow> 'a" where
  "py_max_by f best [] = best"
| "py_max_by f best (x # xs) = py_max_by f (if f x > f best then x else best) xs"

definition song_position :: "song \<Rightarrow> int" where
  "song_position s = get_or 0 (sg_position s)"

definition last_song :: "song list \<Rightarrow> song option" where
  "last_song songs =
     (case non_encore_songs songs of
        [] \<Rightarrow> None
      | g # gs \<Rightarrow> Some (py_max_by song_position g gs))"

text \<open>
  The reading of the specification, for comparison with \<open>last_song\<close>: among the
  non-encore songs at the greatest position, the last one in setlist order.
\<close>

definition claimed_last_song :: "song list \<Rightarrow> song option" where
  "claimed_last_song songs =
     (case non_encore_songs songs of
        [] \<Rightarrow> None
      | g # gs \<Rightarrow>
          Some (last (filter (\<lambda>s. song_position s = Max (song_position ` set (g # gs)))
                        (g # gs))))"

definition credit_closing :: "string \<Rightarrow> artist_ref \<Rightarrow> song_tables \<Rightarrow> song_tables" where
  "credit_closing last_song_name a t =
     t\<lparr>st_closing_songs :=
         incr2 (get_or [] (ar_artist_name a)) last_song_name (st_closing_songs t)\<rparr>"

definition count_closing :: "artist_ref list \<Rightarrow> song list \<Rightarrow> song_tables \<Rightarrow> song_tables" where
  "count_closing primary songs t =
     (case last_song songs of
        None \<Rightarrow> t
      | Some g \<Rightarrow>
          (if get_or [] (sg_name g) \<noteq> []
           then fold (credit_closing (get_or [] (sg_name g))) primary t
           else t))"

text \<open>The body of \<^verbatim>\<open>for setlist_doc in setlists_docs\<close>.\<close>

definition analyse_setlist :: "(string \<times> concert) list \<Rightarrow> setlist \<Rightarrow> song_tables \<Rightarrow> song_tables" where
  "analyse_setlist acd s t =
     (case sl_concert_id s of
        None \<Rightarrow> t
      | Some cid \<Rightarrow>
          (case map_of acd cid of
             None \<Rightarrow> t
           | Some d \<Rightarrow>
               count_closing (primary_artists d) (get_or [] (sl_songs s))
                 (fold (count_song (primary_artists d)) (get_or [] (sl_songs s)) t)))"

definition song_analytics :: "(string \<times> concert) list \<Rightarrow> setlist list \<Rightarrow> song_tables" where
  "song_analytics acd sls = fold (analyse_setlist acd) sls empty_tables"

record song_entry =
  as_name :: string
  as_times_heard :: nat
  as_is_mostly_cover :: bool

text \<open>
  \<^verbatim>\<open>times_as_cover > times_heard / 2\<close>: the quotient is a float, exact for every
  count below \<open>2^53\<close>, and Python compares an integer with a float exactly.
\<close>

definition song_entry_of :: "song_tables \<Rightarrow> string \<times> nat \<Rightarrow> song_entry" where
  "song_entry_of t item =
     \<lparr> as_name = fst item,
       as_times_heard = snd item,
       as_is_mostly_cover =
         (real (count_of (st_song_cover_counts t) (fst item)) > real (snd item) / 2) \<rparr>"

definition all_songs :: "song_tables \<Rightarrow> song_entry list" where
  "all_songs t = sort_key_desc as_times_heard (map (song_entry_of t) (st_song_counts t))"

definition frequent_songs :: "string \<times> (string \<times> nat) list \<Rightarrow> (string \<times> (string \<times> nat) list) list" where
  "frequent_songs item =
     (if filter (\<lambda>p. snd p \<ge> 2) (snd item) \<noteq> []
      then [(fst item, sort_key_desc snd (filter (\<lambda>p. snd p \<ge> 2) (snd item)))]
      else [])"

definition songs_by_artist ::
  "(string \<times> (string \<times> nat) list) list \<Rightarrow> (string \<times> (string \<times> nat) list) list" where
  "songs_by_artist tbl = concat (map frequent_songs tbl)"

record songs_data =
  sd_all_songs :: "song_entry list"
  sd_opening_songs_by_artist :: "(string \<times> (string \<times> nat) list) list"
  sd_closing_songs_by_artist :: "(string \<times> (string \<times> nat) list) list"
  sd_encore_songs_by_artist :: "(string \<times> (string \<times> nat) list) list"
  sd_total_unique_songs :: nat

definition songs_json :: "(string \<times> concert) list \<Rightarrow> setlist list \<Rightarrow> songs_data" where
  "songs_json acd sls =
     \<lparr> sd_all_songs = all_songs (song_analytics acd sls),
       sd_opening_songs_by_artist = songs_by_artist (st_opening_songs (song_analytics acd sls)),
       sd_closing_songs_by_artist = songs_by_artist (st_closing_songs (song_analytics acd sls)),
       sd_encore_songs_by_artist = songs_by_artist (st_encore_songs (song_analytics acd sls)),
       sd_total_unique_songs = length (all_songs (song_analytics acd sls)) \<rparr>"

subsection \<open>Stages 7 and 8: venue and artist details\<close>

record venue_concert =
  ve_id :: string
  ve_show_number :: "int option"
  ve_date :: string
  ve_festival_name :: "string option"
  ve_artists :: string
  ve_has_setlist :: bool
  ve_opening_song :: "string option"
  ve_closing_song :: "string option"

definition venue_concert_of :: "string \<times> concert \<Rightarrow> venue_concert" where
  "venue_concert_of item =
     \<lparr> ve_id = fst item,
       ve_show_number = c_show_number (snd item),
       ve_date = get_or [] (c_date (snd item)),
       ve_festival_name = c_festival_name (snd item),
       ve_artists = artist_names (snd item),
       ve_has_setlist = get_or False (c_has_setlist (snd item)),
       ve_opening_song = c_opening_song (snd item),
       ve_closing_song = c_closing_song (snd item) \<rparr>"

definition concerts_at_venue :: "(string \<times> concert) list \<Rightarrow> string \<Rightarrow> venue_concert list" where
  "concerts_at_venue acd venue_id =
     sort_key_desc ve_date
       (map venue_concert_of (filter (\<lambda>item. c_venue_id (snd item) = Some venue_id) acd))"

record venue_detail =
  vdt_id :: string
  vdt_name :: string
  vdt_city :: string
  vdt_state :: string
  vdt_concert_count :: nat
  vdt_concerts :: "venue_concert list"

text \<open>The files of \<^verbatim>\<open>venue_details/\<close>: none for a venue without concerts.\<close>

definition venue_detail_file ::
  "(string \<times> concert) list \<Rightarrow> string \<times> venue_doc \<Rightarrow> (string \<times> venue_detail) list" where
  "venue_detail_file acd item =
     (if concerts_at_venue acd (fst item) = [] then []
      else [(fst item,
             \<lparr> vdt_id = fst item,
               vdt_name = get_or [] (vd_canonical_name (snd item)),
               vdt_city = get_or [] (vd_city (snd item)),
               vdt_state = get_or [] (vd_state (snd item)),
               vdt_concert_count = length (concerts_at_venue acd (fst item)),
               vdt_concerts = concerts_at_venue acd (fst item) \<rparr>)])"

definition venue_details ::
  "(string \<times> concert) list \<Rightarrow> (string \<times> venue_doc) list \<Rightarrow> (string \<times> venue_detail) list" where
  "venue_details acd venue_docs = concat (map (venue_detail_file acd) (venue_data_map venue_docs))"

record artist_concert =
  ae_id :: string
  ae_show_number :: "int option"
  ae_date :: string
  ae_festival_name :: "string option"
  ae_venue :: string
  ae_city :: string
  ae_state :: string
  ae_role :: string
  ae_has_setlist :: bool
  ae_opening_song :: "string option"
  ae_closing_song :: "string option"

text \<open>
  The inner loop over a concert's roster stops at the first entry with the artist's id
  (\<^verbatim>\<open>break\<close>): one row per concert, with that entry's role.
\<close>

definition artist_concert_of :: "string \<Rightarrow> string \<times> concert \<Rightarrow> artist_concert list" where
  "artist_concert_of artist_id item =
     (case find (\<lambda>a. ar_artist_id a = Some artist_id) (get_or [] (c_artists (snd item))) of
        None \<Rightarrow> []
      | Some a \<Rightarrow>
          [\<lparr> ae_id = fst item,
             ae_show_number = c_show_number (snd item),
             ae_date = get_or [] (c_date (snd item)),
             ae_festival_name = c_festival_name (snd item),
             ae_venue = get_or [] (c_venue_name (snd item)),
             ae_city = get_or [] (c_city (snd item)),
             ae_state = get_or [] (c_state (snd item)),
             ae_role = get_or ''headliner'' (ar_role a),
             ae_has_setlist = get_or False (c_has_setlist (snd item)),
             ae_opening_song = c_opening_song (snd item),
             ae_closing_song = c_closing_song (snd item) \<rparr>])"

definition concerts_for_artist :: "(string \<times> concert) list \<Rightarrow> string \<Rightarrow> artist_concert list" where
  "concerts_for_artist acd artist_id =
     sort_key_desc ae_date (concat (map (artist_concert_of artist_id) acd))"

definition credit_artist_song ::
  "string \<Rightarrow> artist_ref \<Rightarrow> (string \<times> (string \<times> nat) list) list \<Rightarrow>
     (string \<times> (string \<times> nat) list) list" where
  "credit_artist_song song_name a m =
     (if truthy (ar_artist_id a) then incr2 (get_or [] (ar_artist_id a)) song_name m else m)"

definition count_artist_song ::
  "artist_ref list \<Rightarrow> song \<Rightarrow> (string \<times> (string \<times> nat) list) list \<Rightarrow>
     (string \<times> (string \<times> nat) list) list" where
  "count_artist_song primary g m =
     (if get_or [] (sg_name g) \<noteq> [] then fold (credit_artist_song (get_or [] (sg_name g))) primary m
      else m)"

definition artist_songs_of_setlist ::
  "(string \<times> concert) list \<Rightarrow> setlist \<Rightarrow> (string \<times> (string \<times> nat) list) list \<Rightarrow>
     (string \<times> (string \<times> nat) list) list" where
  "artist_songs_of_setlist acd s m =
     (case sl_concert_id s of
        None \<Rightarrow> m
      | Some cid \<Rightarrow>
          (case map_of acd cid of
             None \<Rightarrow> m
           | Some d \<Rightarrow> fold (count_artist_song (primary_artists d)) (get_or [] (sl_songs s)) m))"

definition artist_songs ::
  "(string \<times> concert) list \<Rightarrow> setlist list \<Rightarrow> (string \<times> (string \<times> nat) list) list" where
  "artist_songs acd sls = fold (artist_songs_of_setlist acd) sls []"

record artist_detail =
  adt_id :: string
  adt_name :: string
  adt_concert_count :: nat
  adt_top_songs :: "(string \<times> nat) list"
  adt_concerts :: "artist_concert list"

definition artist_detail_file ::
  "(string \<times> concert) list \<Rightarrow> setlist list \<Rightarrow> string \<times> string \<Rightarrow> (string \<times> artist_detail) list" where
  "artist_detail_file acd sls item =
     (if concerts_for_artist acd (fst item) = [] then []
      else [(fst item,
             \<lparr> adt_id = fst item,
               adt_name = snd item,
               adt_concert_count = length (concerts_for_artist acd (fst item)),
               adt_top_songs =
                 take 10 (sort_key_desc snd (get_or [] (map_of (artist_songs acd sls) (fst item)))),
               adt_concerts = concerts_for_artist acd (fst item) \<rparr>)])"

definition artist_details ::
  "(string \<times> concert) list \<Rightarrow> setlist list \<Rightarrow> (string \<times> artist_doc) list \<Rightarrow>
     (string \<times> artist_detail) list" where
  "artist_details acd sls artist_docs =
     concat (map (artist_detail_file acd sls) (artist_names_map artist_docs))"

subsection \<open>The run\<close>

text \<open>
  The files of one run over the four collections, with \<open>dir0\<close> the detail files found in
  the output directory. Stages 1 to 4 raise nothing on documents of the model. Stage 5
  can raise; then \<^verbatim>\<open>stats.json\<close> and the files of stages 6 to 8 are not written, and
  the files of stages 1 to 4 stay.
\<close>

record later_files =
  lf_stats :: stats
  lf_songs :: songs_data
  lf_venue_details :: "(string \<times> venue_detail) list"
  lf_artist_details :: "(string \<times> artist_detail) list"

record run_files =
  ef_concerts_json :: "concert_row list"
  ef_concert_details :: "(string \<times> concert_detail) list"
  ef_detail_dir :: "string list"
  ef_artists_json :: "artist_entry list"
  ef_venues_json :: "venue_entry list"
  ef_later :: "py_error + later_files"

definition export_to_json ::
  "(string \<times> concert) list \<Rightarrow> setlist list \<Rightarrow> (string \<times> artist_doc) list \<Rightarrow>
     (string \<times> venue_doc) list \<Rightarrow> string list \<Rightarrow> run_files" where
  "export_to_json docs sls artist_docs venue_docs dir0 =
     \<lparr> ef_concerts_json = concerts_json docs sls,
       ef_concert_details = concert_details (all_concerts_data docs) sls,
       ef_detail_dir = detail_dir_after (all_concerts_data docs) sls dir0,
       ef_artists_json = artists_json (all_concerts_data docs) artist_docs,
       ef_venues_json = venues_json (all_concerts_data docs) venue_docs,
       ef_later =
         (case stats_json (all_concerts_data docs) sls
                 (artists_json (all_concerts_data docs) artist_docs)
                 (venues_json (all_concerts_data docs) venue_docs) of
            Inl e \<Rightarrow> Inl e
          | Inr st \<Rightarrow>
              Inr \<lparr> lf_stats = st,
                    lf_songs = songs_json (all_concerts_data docs) sls,
                    lf_venue_details = venue_details (all_concerts_data docs) venue_docs,
                    lf_artist_details =
                      artist_details (all_concerts_data docs) sls artist_docs \<rparr>) \<rparr>"

subsection \<open>Counts taken directly from the documents\<close>

text \<open>
  The quantities the properties below compare the tables with: the setlists of loaded
  concerts, the occurrences of a song name in them, the occurrences flagged as covers, the
  roster entries that name an artist, and the concerts at a venue.
\<close>

definition non_orphaned :: "(string \<times> concert) list \<Rightarrow> setlist \<Rightarrow> bool" where
  "non_orphaned acd s =
     (case sl_concert_id s of None \<Rightarrow> False | Some cid \<Rightarrow> cid \<in> set (map fst acd))"

definition analysed_songs :: "(string \<times> concert) list \<Rightarrow> setlist list \<Rightarrow> song list" where
  "analysed_songs acd sls =
     concat (map (\<lambda>s. get_or [] (sl_songs s)) (filter (non_orphaned acd) sls))"

definition occurrences :: "(string \<times> concert) list \<Rightarrow> setlist list \<Rightarrow> string \<Rightarrow> nat" where
  "occurrences acd sls nm =
     length (filter (\<lambda>g. get_or [] (sg_name g) = nm) (analysed_songs acd sls))"

definition cover_occurrences :: "(string \<times> concert) list \<Rightarrow> setlist list \<Rightarrow> string \<Rightarrow> nat" where
  "cover_occurrences acd sls nm =
     length (filter (\<lambda>g. get_or [] (sg_name g) = nm \<and> get_or False (sg_is_cover g))
               (analysed_songs acd sls))"

definition memberships :: "(string \<times> concert) list \<Rightarrow> string \<Rightarrow> nat" where
  "memberships acd artist_id =
     sum_list (map (\<lambda>item. length (filter (\<lambda>a. ar_artist_id a = Some artist_id)
                                      (get_or [] (c_artists (snd item))))) acd)"

definition concerts_at :: "(string \<times> concert) list \<Rightarrow> string \<Rightarrow> nat" where
  "concerts_at acd venue_id = length (filter (\<lambda>item. c_venue_id (snd item) = Some venue_id) acd)"

text \<open>
  How often the concert of a setlist lists a primary artist of the given name (0 for a
  setlist of no loaded concert), and whether the closing song of a list of songs has the
  given, non-empty name.
\<close>

definition credits :: "(string \<times> concert) list \<Rightarrow> setlist \<Rightarrow> string \<Rightarrow> nat" where
  "credits acd s artist_name =
     (case sl_concert_id s of
        None \<Rightarrow> 0
      | Some cid \<Rightarrow>
          (case map_of acd cid of
             None \<Rightarrow> 0
           | Some d \<Rightarrow>
               length (filter (\<lambda>a. get_or [] (ar_artist_name a) = artist_name)
                         (primary_artists d))))"

definition closes_with :: "song list \<Rightarrow> string \<Rightarrow> bool" where
  "closes_with songs nm =
     (case last_song songs of
        None \<Rightarrow> False
      | Some g \<Rightarrow> get_or [] (sg_name g) \<noteq> [] \<and> get_or [] (sg_name g) = nm)"

text \<open>A song with the given, non-empty name that opens a set, or belongs to an encore.\<close>

definition opening_named :: "string \<Rightarrow> song \<Rightarrow> bool" where
  "opening_named nm g = (get_or [] (sg_name g) \<noteq> [] \<and> is_opening g \<and> get_or [] (sg_name g) = nm)"

definition encore_named :: "string \<Rightarrow> song \<Rightarrow> bool" where
  "encore_named nm g =
     (get_or [] (sg_name g) \<noteq> [] \<and> 0 < get_or 0 (sg_encore g) \<and> get_or [] (sg_name g) = nm)"

text \<open>
  The role of an artist name in the roster of a concert, read off the roster itself: the
  role of the last entry of that name, and \<open>headliner\<close> when there is none or the entry
  has no role.
\<close>

definition roster_role :: "concert \<Rightarrow> string option \<Rightarrow> string" where
  "roster_role d nm =
     (case find (\<lambda>a. ar_artist_name a = nm)
             (rev (case c_artists d of None \<Rightarrow> [] | Some as \<Rightarrow> as)) of
        None \<Rightarrow> ''headliner''
      | Some a \<Rightarrow> (case ar_role a of None \<Rightarrow> ''headliner'' | Some r \<Rightarrow> r))"

text \<open>
  A concert is dated in year \<open>y\<close> when its date is present, has at least 4 characters, and
  \<^verbatim>\<open>int\<close> of the first 4 is \<open>y\<close>.
\<close>

definition dated_in :: "int \<Rightarrow> concert \<Rightarrow> bool" where
  "dated_in y d =
     (case c_date d of None \<Rightarrow> False | Some s \<Rightarrow> 4 \<le> length s \<and> py_int (take 4 s) = Inr y)"

subsection \<open>Auxiliary functions\<close>

text \<open>Counting the names of the songs that satisfy \<open>P\<close>.\<close>

definition tally :: "(song \<Rightarrow> bool) \<Rightarrow> song list \<Rightarrow> (string \<times> nat) list \<Rightarrow> (string \<times> nat) list" where
  "tally P gs m = fold (\<lambda>g m. if P g then incr (get_or [] (sg_name g)) m else m) gs m"

definition named :: "song \<Rightarrow> bool" where
  "named g = (get_or [] (sg_name g) \<noteq> [])"

definition named_cover :: "song \<Rightarrow> bool" where
  "named_cover g = (get_or [] (sg_name g) \<noteq> [] \<and> get_or False (sg_is_cover g))"

definition with_name :: "string \<Rightarrow> artist_ref list \<Rightarrow> nat" where
  "with_name an as = length (filter (\<lambda>a. get_or [] (ar_artist_name a) = an) as)"

definition set_role ::
  "artist_ref \<Rightarrow> (string option \<times> string) list \<Rightarrow> (string option \<times> string) list" where
  "set_role a m = dict_set (ar_artist_name a) (get_or ''headliner'' (ar_role a)) m"

subsection \<open>A small database\<close>

text \<open>
  One concert with a headliner and an opener, a second night with the same bill, and
  setlists for them; the documents the closed examples below are evaluated on.
\<close>

definition headliner_b :: artist_ref where
  "headliner_b =
     \<lparr> ar_artist_id = Some ''a1'', ar_artist_name = Some ''Headliner B'',
       ar_role = Some ''headliner'' \<rparr>"

definition opener_a :: artist_ref where
  "opener_a =
     \<lparr> ar_artist_id = Some ''a2'', ar_artist_name = Some ''Opener A'',
       ar_role = Some ''opener'' \<rparr>"

definition blank_concert :: concert where
  "blank_concert =
     \<lparr> c_show_number = None, c_date = None, c_festival_name = None, c_venue_id = None,
       c_venue_name = None, c_city = None, c_state = None, c_artists = None,
       c_setlist_status = None, c_has_setlist = None, c_opening_song = None,
       c_closing_song = None \<rparr>"

definition night_1 :: concert where
  "night_1 =
     blank_concert\<lparr> c_date := Some ''2019-07-04'', c_venue_id := Some ''v1'',
       c_artists := Some [headliner_b, opener_a] \<rparr>"

definition night_2 :: concert where
  "night_2 =
     blank_concert\<lparr> c_date := Some ''2019-07-05'', c_venue_id := Some ''v1'',
       c_artists := Some [headliner_b, opener_a] \<rparr>"

definition blank_song :: song where
  "blank_song =
     \<lparr> sg_position = None, sg_name = None, sg_set_name = None, sg_encore = None,
       sg_is_cover = None, sg_cover_artist = None, sg_guest_artist = None \<rparr>"

definition song_at :: "int \<Rightarrow> string \<Rightarrow> int \<Rightarrow> song" where
  "song_at pos nm enc =
     blank_song\<lparr> sg_position := Some pos, sg_name := Some nm, sg_encore := Some enc \<rparr>"

definition blank_setlist :: setlist where
  "blank_setlist =
     \<lparr> sl_concert_id = None, sl_artist_id = None, sl_artist_name = None, sl_songs = None,
       sl_song_count = None, sl_has_encore = None, sl_tour_name = None,
       sl_setlistfm_url = None \<rparr>"

definition opener_set :: "string \<Rightarrow> setlist" where
  "opener_set cid =
     blank_setlist\<lparr> sl_concert_id := Some cid, sl_artist_name := Some ''Opener A'',
       sl_songs := Some [song_at 1 ''Intro'' 0, song_at 2 ''Finale'' 0, song_at 3 ''Bis'' 1],
       sl_song_count := Some 3, sl_has_encore := Some True \<rparr>"

definition headliner_set :: "string \<Rightarrow> setlist" where
  "headliner_set cid =
     blank_setlist\<lparr> sl_concert_id := Some cid, sl_artist_name := Some ''Headliner B'',
       sl_songs := Some [song_at 1 ''Hello'' 0, song_at 2 ''Goodbye'' 0],
       sl_song_count := Some 2, sl_tour_name := Some ''World Tour'' \<rparr>"

definition orphan_set :: setlist where
  "orphan_set = blank_setlist\<lparr> sl_concert_id := Some ''gone'', sl_song_count := Some 5 \<rparr>"

definition cover_song :: "string \<Rightarrow> bool \<Rightarrow> song" where
  "cover_song nm cov = blank_song\<lparr> sg_name := Some nm, sg_is_cover := Some cov \<rparr>"

text \<open>\<open>Half\<close> is heard twice, once as a cover; \<open>Mostly\<close> three times, twice as a cover.\<close>

definition cover_set :: setlist where
  "cover_set =
     blank_setlist\<lparr> sl_concert_id := Some ''c1'', sl_artist_name := Some ''Headliner B'',
       sl_songs := Some [cover_song ''Half'' True, cover_song ''Half'' False,
                         cover_song ''Mostly'' True, cover_song ''Mostly'' False,
                         cover_song ''Mostly'' True] \<rparr>"

definition artist_documents :: "(string \<times> artist_doc) list" where
  "artist_documents =
     [(''a3'', \<lparr> ad_canonical_name = Some ''Absent C'' \<rparr>),
      (''a2'', \<lparr> ad_canonical_name = Some ''Opener A'' \<rparr>),
      (''a1'', \<lparr> ad_canonical_name = Some ''Headliner B'' \<rparr>)]"

definition venue_documents :: "(string \<times> venue_doc) list" where
  "venue_documents =
     [(''v2'', \<lparr> vd_canonical_name = Some ''Empty Hall'', vd_city = None, vd_state = None \<rparr>),
      (''v1'', \<lparr> vd_canonical_name = Some ''Full Hall'', vd_city = Some ''Town'',
                 vd_state = Some ''ST'' \<rparr>)]"

text \<open>A setlist of the same concert by an artist who is not in its roster.\<close>

definition guest_set :: "string \<Rightarrow> setlist" where
  "guest_set cid =
     blank_setlist\<lparr> sl_concert_id := Some cid, sl_artist_name := Some ''Guest C'',
       sl_songs := Some [song_at 1 ''Visit'' 0], sl_song_count := Some 1 \<rparr>"

section \<open>Properties\<close>

subsection \<open>Dicts\<close>

lemma keys_dict_set: "fst ` set (dict_set k v m) = insert k (fst ` set m)"
  by (induction m) force+

lemma keys_dict_append: "fst ` set (dict_append k x m) = insert k (fst ` set m)"
  by (induction m) force+

lemma distinct_dict_set: "distinct (map fst m) \<Longrightarrow> distinct (map fst (dict_set k v m))"
  by (induction m) (auto simp: keys_dict_set)

lemma keys_fold_dict_set:
  "fst ` set (fold (\<lambda>p m. dict_set (fst p) (snd p) m) docs m0) = fst ` set docs \<union> fst ` set m0"
  by (induction docs arbitrary: m0) (auto simp: keys_dict_set)

lemma keys_dict_of: "fst ` set (dict_of docs) = fst ` set docs"
  by (simp add: dict_of_def keys_fold_dict_set)

lemma distinct_fold_dict_set:
  "distinct (map fst m0) \<Longrightarrow>
     distinct (map fst (fold (\<lambda>p m. dict_set (fst p) (snd p) m) docs m0))"
  by (induction docs arbitrary: m0) (auto simp: distinct_dict_set)

lemma distinct_dict_of: "distinct (map fst (dict_of docs))"
  by (simp add: dict_of_def distinct_fold_dict_set)

subsection \<open>The grouping of setlists and the detail files\<close>

lemma keys_group_setlist:
  "fst ` set (group_setlist acd s m) =
     fst ` set m \<union> {cid. cid \<noteq> [] \<and> cid \<in> fst ` set acd \<and> sl_concert_id s = Some cid}"
  by (cases "sl_concert_id s") (auto simp: group_setlist_def keys_dict_append truthy_def get_or_def)

lemma keys_fold_group:
  "fst ` set (fold (group_setlist acd) sls m0) =
     fst ` set m0 \<union>
       {cid. cid \<noteq> [] \<and> cid \<in> fst ` set acd \<and> (\<exists>s\<in>set sls. sl_concert_id s = Some cid)}"
proof (induction sls arbitrary: m0)
  case Nil
  then show ?case by simp
next
  case (Cons s sls)
  have "fst ` set (fold (group_setlist acd) (s # sls) m0) =
     fst ` set (group_setlist acd s m0) \<union>
       {cid. cid \<noteq> [] \<and> cid \<in> fst ` set acd \<and> (\<exists>s\<in>set sls. sl_concert_id s = Some cid)}"
    by (simp add: Cons.IH)
  also have "\<dots> = fst ` set m0 \<union>
       {cid. cid \<noteq> [] \<and> cid \<in> fst ` set acd \<and>
          (\<exists>s\<in>set (s # sls). sl_concert_id s = Some cid)}"
    unfolding keys_group_setlist by auto
  finally show ?case .
qed

lemma keys_setlists_by_concert:
  "fst ` set (setlists_by_concert acd sls) =
     {cid. cid \<noteq> [] \<and> cid \<in> fst ` set acd \<and> (\<exists>s\<in>set sls. sl_concert_id s = Some cid)}"
  by (simp add: setlists_by_concert_def keys_fold_group)

lemma detail_file_key:
  assumes "fst item \<in> fst ` set acd"
  shows "map fst (detail_file acd item) = [fst item]"
proof -
  from assms obtain d where "map_of acd (fst item) = Some d"
    by (metis domD dom_map_of_conv_image_fst)
  then show ?thesis by (simp add: detail_file_def)
qed

lemma files_of_groups:
  "\<forall>item\<in>set g. fst item \<in> fst ` set acd \<Longrightarrow>
     map fst (concat (map (detail_file acd) g)) = map fst g"
  by (induction g) (simp_all add: detail_file_key)

text \<open>Every key of the grouping gets its file: the lookup of the concert cannot fail.\<close>

lemma files_concert_details:
  "map fst (concert_details acd sls) = map fst (setlists_by_concert acd sls)"
proof -
  have "\<forall>item\<in>set (setlists_by_concert acd sls). fst item \<in> fst ` set acd"
  proof
    fix item assume "item \<in> set (setlists_by_concert acd sls)"
    then have "fst item \<in> fst ` set (setlists_by_concert acd sls)" by simp
    then show "fst item \<in> fst ` set acd"
      unfolding keys_setlists_by_concert by blast
  qed
  then show ?thesis
    unfolding concert_details_def by (rule files_of_groups)
qed

lemma set_fold_write_file: "set (fold write_file fs dir) = set fs \<union> set dir"
  by (induction fs arbitrary: dir) (auto simp: write_file_def)

lemma set_detail_dir_after:
  "set (detail_dir_after acd sls dir0) = fst ` set (setlists_by_concert acd sls)"
  unfolding detail_dir_after_def set_filter set_fold_write_file files_concert_details set_map
  by blast

lemma hasSetlist_of_row:
  "row \<in> set (concerts_json docs sls) \<Longrightarrow>
     row_hasSetlist row =
       (row_id row \<in> fst ` set (setlists_by_concert (all_concerts_data docs) sls))"
  by (auto simp: concerts_json_def concerts_list_def concert_row_of_def intro: rev_image_eqI)

lemma row_ids_concerts_json: "map row_id (concerts_json docs sls) = map fst docs"
  by (auto simp: concerts_json_def concerts_list_def concert_row_of_def)

text \<open>
  Claim C1. For a loaded concert \<open>cid\<close> (a Firestore document id, so not empty),
  \<^verbatim>\<open>concerts.json\<close> has a row for it, the row's \<^verbatim>\<open>hasSetlist\<close> is true exactly
  when some setlist document has \<open>cid\<close> as its concert id, and that is exactly when
  \<^verbatim>\<open>concert_details/<cid>.json\<close> is in the directory after the run, whatever the
  directory held before. Every file left in the directory is backed by a setlist: stale
  files are gone.
\<close>

theorem hasSetlist_iff_detail_file:
  assumes "(cid, d) \<in> set docs" and "cid \<noteq> []"
  shows "(\<exists>row\<in>set (concerts_json docs sls). row_id row = cid) \<and>
         (\<forall>row\<in>set (concerts_json docs sls). row_id row = cid \<longrightarrow>
            row_hasSetlist row = (\<exists>s\<in>set sls. sl_concert_id s = Some cid)) \<and>
         (cid \<in> set (detail_dir_after (all_concerts_data docs) sls dir0)) =
            (\<exists>s\<in>set sls. sl_concert_id s = Some cid) \<and>
         (\<forall>f\<in>set (detail_dir_after (all_concerts_data docs) sls dir0).
            \<exists>s\<in>set sls. sl_concert_id s = Some f)"
proof -
  let ?keys = "fst ` set (setlists_by_concert (all_concerts_data docs) sls)"
  have loaded: "cid \<in> fst ` set (all_concerts_data docs)"
    using assms(1) unfolding all_concerts_data_def keys_dict_of by force
  have key: "cid \<in> ?keys \<longleftrightarrow> (\<exists>s\<in>set sls. sl_concert_id s = Some cid)"
    unfolding keys_setlists_by_concert using loaded assms(2) by blast
  have ex: "\<exists>row\<in>set (concerts_json docs sls). row_id row = cid"
  proof -
    have "cid \<in> set (map row_id (concerts_json docs sls))"
      unfolding row_ids_concerts_json using assms(1) by force
    then show ?thesis by auto
  qed
  have rows: "\<forall>row\<in>set (concerts_json docs sls). row_id row = cid \<longrightarrow>
            row_hasSetlist row = (\<exists>s\<in>set sls. sl_concert_id s = Some cid)"
    using hasSetlist_of_row key by blast
  have files: "(cid \<in> set (detail_dir_after (all_concerts_data docs) sls dir0)) =
            (\<exists>s\<in>set sls. sl_concert_id s = Some cid)"
    unfolding set_detail_dir_after by (rule key)
  have stale: "\<forall>f\<in>set (detail_dir_after (all_concerts_data docs) sls dir0).
            \<exists>s\<in>set sls. sl_concert_id s = Some f"
    unfolding set_detail_dir_after keys_setlists_by_concert by blast
  from ex rows files stale show ?thesis by blast
qed

theorem hasSetlist_iff_detail_file_witness:
  "(''c1'', night_1) \<in> set [(''c1'', night_1), (''c2'', night_2)] \<and> ''c1'' \<noteq> [] \<and>
   (\<exists>row\<in>set (concerts_json [(''c1'', night_1), (''c2'', night_2)] [opener_set ''c1'', orphan_set]).
      row_id row = ''c1'' \<and> row_hasSetlist row) \<and>
   ''c1'' \<in> set (detail_dir_after (all_concerts_data [(''c1'', night_1), (''c2'', night_2)])
                   [opener_set ''c1'', orphan_set] [''c2'', ''gone''])"
proof -
  have h1: "(''c1'', night_1) \<in> set [(''c1'', night_1), (''c2'', night_2)]" by simp
  have h2: "''c1'' \<noteq> []" by simp
  have h3: "\<exists>s\<in>set [opener_set ''c1'', orphan_set]. sl_concert_id s = Some ''c1''"
    by (simp add: opener_set_def blank_setlist_def)
  from hasSetlist_iff_detail_file [OF h1 h2, of "[opener_set ''c1'', orphan_set]" "[''c2'', ''gone'']"] h3
  show ?thesis using h1 h2 by blast
qed

subsection \<open>The concert-level tour name\<close>

text \<open>
  Claim C2, evaluated. The concert \<open>c1\<close> has two setlists; the headliner's carries the
  tour name \<open>World Tour\<close> and the opener's carries none. The set \<^verbatim>\<open>tour_names\<close>
  then has one element, and the detail object gets the concert-level \<^verbatim>\<open>tour_name\<close>,
  although one setlist lacks a tour name.
\<close>

theorem tour_name_with_one_missing:
  "sl_tour_name (opener_set ''c1'') = None \<and>
   map (\<lambda>file. (fst file, cd_tour_name (snd file)))
     (concert_details (all_concerts_data [(''c1'', night_1)])
        [headliner_set ''c1'', opener_set ''c1'']) = [(''c1'', Some ''World Tour'')]"
  by code_simp

subsection \<open>The total of songs\<close>

text \<open>
  Claim C4, evaluated. The setlist \<open>orphan_set\<close> names a concert that is not loaded: the
  grouping drops it, and \<^verbatim>\<open>total_songs\<close> still adds its \<^verbatim>\<open>song_count\<close> of
  5 to the 3 of the only setlist of a loaded concert.
\<close>

theorem total_songs_counts_orphan:
  "setlists_by_concert (all_concerts_data [(''c1'', night_1)]) [opener_set ''c1'', orphan_set] =
     [(''c1'', [opener_set ''c1''])] \<and>
   get_or 0 (sl_song_count (opener_set ''c1'')) = 3 \<and>
   map_sum id stat_total_songs
     (stats_json (all_concerts_data [(''c1'', night_1)]) [opener_set ''c1'', orphan_set] [] []) = Inr 8"
  by code_simp

subsection \<open>The closing song\<close>

lemma py_max_by_mem: "py_max_by f b xs = b \<or> py_max_by f b xs \<in> set xs"
proof (induction xs arbitrary: b)
  case Nil
  show ?case by simp
next
  case (Cons x xs)
  show ?case
  proof (cases "f x > f b")
    case True
    with Cons.IH[of x] show ?thesis by auto
  next
    case False
    with Cons.IH[of b] show ?thesis by auto
  qed
qed

lemma py_max_by_ge_best: "f b \<le> f (py_max_by f b xs)"
proof (induction xs arbitrary: b)
  case Nil
  show ?case by simp
next
  case (Cons x xs)
  show ?case
  proof (cases "f x > f b")
    case True
    have "f x \<le> f (py_max_by f x xs)" by (rule Cons.IH)
    with True show ?thesis by simp
  next
    case False
    with Cons.IH[of b] show ?thesis by simp
  qed
qed

lemma py_max_by_upper: "y \<in> set xs \<Longrightarrow> f y \<le> f (py_max_by f b xs)"
proof (induction xs arbitrary: b)
  case Nil
  then show ?case by simp
next
  case (Cons x xs)
  show ?case
  proof (cases "y = x")
    case True
    show ?thesis
    proof (cases "f x > f b")
      case gt: True
      have "f x \<le> f (py_max_by f x xs)" by (rule py_max_by_ge_best)
      with True gt show ?thesis by simp
    next
      case le: False
      have "f b \<le> f (py_max_by f b xs)" by (rule py_max_by_ge_best)
      with True le show ?thesis by simp
    qed
  next
    case False
    with Cons.prems have "y \<in> set xs" by simp
    then have "f y \<le> f (py_max_by f (if f x > f b then x else b) xs)" by (rule Cons.IH)
    then show ?thesis by simp
  qed
qed

lemma py_max_by_first:
  "find (\<lambda>y. f y = f (py_max_by f b xs)) (b # xs) = Some (py_max_by f b xs)"
proof (induction xs arbitrary: b)
  case Nil
  show ?case by simp
next
  case (Cons x xs)
  show ?case
  proof (cases "f x > f b")
    case True
    have r: "py_max_by f b (x # xs) = py_max_by f x xs" using True by simp
    have "f x \<le> f (py_max_by f x xs)" by (rule py_max_by_ge_best)
    with True have nb: "f b \<noteq> f (py_max_by f x xs)" by simp
    have "find (\<lambda>y. f y = f (py_max_by f x xs)) (x # xs) = Some (py_max_by f x xs)"
      by (rule Cons.IH)
    with nb show ?thesis unfolding r by simp
  next
    case False
    have r: "py_max_by f b (x # xs) = py_max_by f b xs" using False by simp
    have ih: "find (\<lambda>y. f y = f (py_max_by f b xs)) (b # xs) = Some (py_max_by f b xs)"
      by (rule Cons.IH)
    show ?thesis
    proof (cases "f b = f (py_max_by f b xs)")
      case True
      with ih show ?thesis unfolding r by simp
    next
      case nb: False
      have "f b \<le> f (py_max_by f b xs)" by (rule py_max_by_ge_best)
      with nb False have "f x \<noteq> f (py_max_by f b xs)" by simp
      with ih nb show ?thesis unfolding r by simp
    qed
  qed
qed

text \<open>
  What the code computes: when a setlist has a non-encore song, \<open>last_song\<close> is a
  non-encore song of the greatest position, and among the songs at that position the first
  in setlist order; when it has a name, that name is credited once to every primary artist
  of the concert.
\<close>

lemma last_song_first_at_max:
  assumes "non_encore_songs songs \<noteq> []"
  shows "\<exists>g. last_song songs = Some g \<and>
             g \<in> set (non_encore_songs songs) \<and>
             (\<forall>s\<in>set (non_encore_songs songs). song_position s \<le> song_position g) \<and>
             find (\<lambda>s. song_position s = song_position g) (non_encore_songs songs) = Some g \<and>
             count_closing primary songs t =
               (if get_or [] (sg_name g) \<noteq> []
                then fold (credit_closing (get_or [] (sg_name g))) primary t else t)"
proof -
  from assms obtain b xs where ne: "non_encore_songs songs = b # xs"
    by (cases "non_encore_songs songs") auto
  define g where "g = py_max_by song_position b xs"
  have ls: "last_song songs = Some g" by (simp add: last_song_def ne g_def)
  have cc: "count_closing primary songs t =
               (if get_or [] (sg_name g) \<noteq> []
                then fold (credit_closing (get_or [] (sg_name g))) primary t else t)"
    by (simp add: count_closing_def ls)
  have mem: "g \<in> set (b # xs)"
    using py_max_by_mem[of song_position b xs] unfolding g_def by auto
  have ub: "\<forall>s\<in>set (b # xs). song_position s \<le> song_position g"
  proof
    fix s assume "s \<in> set (b # xs)"
    then consider "s = b" | "s \<in> set xs" by auto
    then show "song_position s \<le> song_position g"
    proof cases
      case 1
      then show ?thesis unfolding g_def by (simp add: py_max_by_ge_best)
    next
      case 2
      then show ?thesis unfolding g_def by (rule py_max_by_upper)
    qed
  qed
  have fi: "find (\<lambda>s. song_position s = song_position g) (b # xs) = Some g"
    unfolding g_def by (rule py_max_by_first)
  from ls mem ub fi cc show ?thesis unfolding ne by blast
qed

text \<open>
  Claim C3, evaluated. Of two non-encore songs at position 5 the code takes the first,
  where the claim, and the comment \<^verbatim>\<open>last song before encore\<close> on the code, name the
  last; the table of closing songs credits the first to the headliner. With positions
  that restart in a second set, the song credited is the last of the first set, not the
  last song before the encore.
\<close>

theorem closing_song_tie_takes_first:
  "non_encore_songs [song_at 5 ''First'' 0, song_at 5 ''Second'' 0] \<noteq> [] \<and>
   last_song [song_at 5 ''First'' 0, song_at 5 ''Second'' 0] = Some (song_at 5 ''First'' 0) \<and>
   claimed_last_song [song_at 5 ''First'' 0, song_at 5 ''Second'' 0] =
     Some (song_at 5 ''Second'' 0) \<and>
   st_closing_songs
     (song_analytics (all_concerts_data [(''c1'', night_1)])
        [blank_setlist\<lparr> sl_concert_id := Some ''c1'',
           sl_songs := Some [song_at 5 ''First'' 0, song_at 5 ''Second'' 0] \<rparr>]) =
     [(''Headliner B'', [(''First'', 1)])] \<and>
   last_song [song_at 1 ''A'' 0, song_at 2 ''B'' 0, song_at 1 ''C'' 0, song_at 2 ''D'' 0,
              song_at 1 ''E'' 1] = Some (song_at 2 ''B'' 0) \<and>
   claimed_last_song [song_at 1 ''A'' 0, song_at 2 ''B'' 0, song_at 1 ''C'' 0, song_at 2 ''D'' 0,
              song_at 1 ''E'' 1] = Some (song_at 2 ''D'' 0)"
  by code_simp

subsection \<open>The year of a concert\<close>


lemma digit_not_space: "py_isdigit c \<Longrightarrow> \<not> py_isspace c"
  by (auto simp: py_isdigit_def py_isspace_def)

lemma digit_not_sign: "py_isdigit c \<Longrightarrow> c \<noteq> CHR ''-'' \<and> c \<noteq> CHR ''+''"
  by (auto simp: py_isdigit_def)

lemma parse_digits_all_digits:
  "\<forall>c\<in>set s. py_isdigit c \<Longrightarrow> prev \<or> s \<noteq> [] \<Longrightarrow> \<exists>n. parse_digits prev acc s = Some n"
proof (induction s arbitrary: prev acc)
  case Nil
  then show ?case by simp
next
  case (Cons c s)
  from Cons.prems(1) have c: "py_isdigit c" and s: "\<forall>c\<in>set s. py_isdigit c" by simp_all
  from Cons.IH[OF s, of True "10 * acc + digit_value c"] c show ?case by simp
qed

lemma py_strip_digits:
  assumes "\<forall>c\<in>set s. py_isdigit c"
  shows "py_strip s = s"
proof -
  have nospace: "\<forall>c\<in>set s. \<not> py_isspace c" using assms digit_not_space by blast
  have a: "dropWhile py_isspace s = s"
    using nospace by (cases s) simp_all
  have "\<forall>c\<in>set (rev s). \<not> py_isspace c" using nospace by simp
  then have b: "dropWhile py_isspace (rev s) = rev s"
    by (cases "rev s") simp_all
  show ?thesis unfolding py_strip_def a b by simp
qed

lemma py_int_digits:
  assumes "s \<noteq> []" and "\<forall>c\<in>set s. py_isdigit c"
  shows "\<exists>y. py_int s = Inr y"
proof -
  from assms(1) obtain c cs where s: "s = c # cs" by (cases s) auto
  from assms(2) s have "py_isdigit c" by simp
  then have sign: "c \<noteq> CHR ''-''" "c \<noteq> CHR ''+''" using digit_not_sign by blast+
  from parse_digits_all_digits[OF assms(2), of False 0] assms(1)
  obtain n where n: "parse_digits False 0 (c # cs) = Some n" unfolding s by blast
  have "py_strip s = c # cs" using py_strip_digits[OF assms(2)] s by simp
  then have "py_int s = Inr (int n)"
    using sign n by (simp add: py_int_def)
  then show ?thesis by blast
qed

lemma py_int_cases: "py_int s = Inl ValueError \<or> (\<exists>y. py_int s = Inr y)"
  by (cases "py_int s") (auto intro: py_error.exhaust)

lemma by_year_dict_completes:
  "(\<exists>r. concerts_by_year_dict ds m = Inr r) =
     (\<forall>d\<in>set ds. 4 \<le> length (get_or [] (c_date d)) \<longrightarrow>
        (\<exists>y. py_int (take 4 (get_or [] (c_date d))) = Inr y))"
proof (induction ds arbitrary: m)
  case Nil
  show ?case by simp
next
  case (Cons d ds)
  show ?case
  proof (cases "4 \<le> length (get_or [] (c_date d))")
    case False
    then show ?thesis using Cons.IH[of m] by simp
  next
    case True
    then have ne: "get_or [] (c_date d) \<noteq> []" by auto
    show ?thesis
    proof (cases "py_int (take 4 (get_or [] (c_date d)))")
      case (Inl e)
      with True ne show ?thesis by simp
    next
      case (Inr y)
      with True ne show ?thesis using Cons.IH[of "incr y m"] by simp
    qed
  qed
qed

lemma concerts_by_year_completes_iff:
  "(\<exists>r. concerts_by_year acd = Inr r) = (\<exists>r. concerts_by_year_dict (map snd acd) [] = Inr r)"
  by (cases "concerts_by_year_dict (map snd acd) []") (simp_all add: concerts_by_year_def)

lemma stats_json_completes_iff:
  "(\<exists>st. stats_json acd sls artists venues = Inr st) = (\<exists>r. concerts_by_year acd = Inr r)"
  by (cases "concerts_by_year acd") (simp_all add: stats_json_def)

lemma export_completes_iff:
  "(\<exists>later. ef_later (export_to_json docs sls artist_docs venue_docs dir0) = Inr later) =
     (\<exists>r. concerts_by_year (all_concerts_data docs) = Inr r)"
proof -
  have "(\<exists>later. ef_later (export_to_json docs sls artist_docs venue_docs dir0) = Inr later) =
      (\<exists>st. stats_json (all_concerts_data docs) sls
               (artists_json (all_concerts_data docs) artist_docs)
               (venues_json (all_concerts_data docs) venue_docs) = Inr st)"
    by (cases "stats_json (all_concerts_data docs) sls
               (artists_json (all_concerts_data docs) artist_docs)
               (venues_json (all_concerts_data docs) venue_docs)")
       (simp_all add: export_to_json_def)
  then show ?thesis unfolding stats_json_completes_iff .
qed

lemma year_loop_completes:
  "((\<exists>r. concerts_by_year acd = Inr r) =
      (\<forall>item\<in>set acd. 4 \<le> length (get_or [] (c_date (snd item))) \<longrightarrow>
         (\<exists>y. py_int (take 4 (get_or [] (c_date (snd item)))) = Inr y))) \<and>
   ((\<forall>item\<in>set acd. 4 \<le> length (get_or [] (c_date (snd item))) \<longrightarrow>
         (\<forall>c\<in>set (take 4 (get_or [] (c_date (snd item)))). py_isdigit c)) \<longrightarrow>
      (\<exists>r. concerts_by_year acd = Inr r)) \<and>
   ((\<exists>st. stats_json acd sls artists venues = Inr st) = (\<exists>r. concerts_by_year acd = Inr r)) \<and>
   ((\<exists>later. ef_later (export_to_json docs sls artist_docs venue_docs dir0) = Inr later) =
      (\<exists>r. concerts_by_year (all_concerts_data docs) = Inr r))"
proof -
  have iff: "(\<exists>r. concerts_by_year acd = Inr r) =
      (\<forall>item\<in>set acd. 4 \<le> length (get_or [] (c_date (snd item))) \<longrightarrow>
         (\<exists>y. py_int (take 4 (get_or [] (c_date (snd item)))) = Inr y))"
    unfolding concerts_by_year_completes_iff by_year_dict_completes by simp
  have digits: "(\<exists>r. concerts_by_year acd = Inr r)"
    if h: "\<forall>item\<in>set acd. 4 \<le> length (get_or [] (c_date (snd item))) \<longrightarrow>
         (\<forall>c\<in>set (take 4 (get_or [] (c_date (snd item)))). py_isdigit c)"
  proof -
    have "\<forall>item\<in>set acd. 4 \<le> length (get_or [] (c_date (snd item))) \<longrightarrow>
         (\<exists>y. py_int (take 4 (get_or [] (c_date (snd item)))) = Inr y)"
    proof (intro ballI impI)
      fix item assume i: "item \<in> set acd" and l: "4 \<le> length (get_or [] (c_date (snd item)))"
      from l have ne: "take 4 (get_or [] (c_date (snd item))) \<noteq> []" by auto
      from h i l have "\<forall>c\<in>set (take 4 (get_or [] (c_date (snd item)))). py_isdigit c" by blast
      with ne show "\<exists>y. py_int (take 4 (get_or [] (c_date (snd item)))) = Inr y"
        by (rule py_int_digits)
    qed
    with iff show ?thesis by blast
  qed
  from iff digits stats_json_completes_iff[of acd sls artists venues]
    export_completes_iff[of docs sls artist_docs venue_docs dir0]
  show ?thesis by blast
qed

text \<open>
  Claim C5 as stated fails: a date of 10 characters that starts with \<open>abcd\<close> raises
  \<^verbatim>\<open>ValueError\<close>, and no statistics are written.
\<close>

theorem year_parse_counterexample:
  "get_or [] (c_date (blank_concert\<lparr>c_date := Some ''abcd-01-01''\<rparr>)) \<noteq> [] \<and>
   4 \<le> length (get_or [] (c_date (blank_concert\<lparr>c_date := Some ''abcd-01-01''\<rparr>))) \<and>
   concerts_by_year [(''c9'', blank_concert\<lparr>c_date := Some ''abcd-01-01''\<rparr>)] = Inl ValueError \<and>
   stats_json [(''c9'', blank_concert\<lparr>c_date := Some ''abcd-01-01''\<rparr>)] [] [] [] = Inl ValueError \<and>
   ef_later (export_to_json [(''c9'', blank_concert\<lparr>c_date := Some ''abcd-01-01''\<rparr>)] [] [] [] [])
     = Inl ValueError"
  by code_simp

subsection \<open>Song counts and the cover flag\<close>

subsubsection \<open>Counters\<close>

lemma count_of_incr: "count_of (incr k m) k' = count_of m k' + (if k' = k then 1 else 0)"
  by (induction m) (auto simp: count_of_def)

lemma keys_incr: "fst ` set (incr k m) = insert k (fst ` set m)"
  by (induction m) force+

lemma distinct_incr: "distinct (map fst m) \<Longrightarrow> distinct (map fst (incr k m))"
  by (induction m) (auto simp: keys_incr)

lemma count_of_entry: "distinct (map fst m) \<Longrightarrow> (k, n) \<in> set m \<Longrightarrow> count_of m k = n"
  by (simp add: count_of_def)

lemma tally_Nil: "tally P [] m = m"
  by (simp add: tally_def)

lemma tally_Cons:
  "tally P (g # gs) m = tally P gs (if P g then incr (get_or [] (sg_name g)) m else m)"
  by (simp add: tally_def)

lemma tally_append: "tally P (gs @ hs) m = tally P hs (tally P gs m)"
  by (simp add: tally_def)

lemma count_of_tally:
  "count_of (tally P gs m) nm =
     count_of m nm + length (filter (\<lambda>g. get_or [] (sg_name g) = nm \<and> P g) gs)"
  by (induction gs arbitrary: m) (auto simp: tally_Nil tally_Cons count_of_incr)

lemma keys_tally:
  "fst ` set (tally P gs m) = fst ` set m \<union> {get_or [] (sg_name g) | g. g \<in> set gs \<and> P g}"
proof (induction gs arbitrary: m)
  case Nil
  show ?case by (simp add: tally_Nil)
next
  case (Cons g gs)
  show ?case unfolding tally_Cons Cons.IH by (auto simp: keys_incr)
qed

lemma distinct_tally: "distinct (map fst m) \<Longrightarrow> distinct (map fst (tally P gs m))"
  by (induction gs arbitrary: m) (simp_all add: tally_Nil tally_Cons distinct_incr)

subsubsection \<open>The two song counters through the loops\<close>

lemma counts_credit_song:
  "st_song_counts (credit_song g a t) = st_song_counts t"
  "st_song_cover_counts (credit_song g a t) = st_song_cover_counts t"
  by (simp_all add: credit_song_def Let_def)

lemma counts_fold_credit_song:
  "st_song_counts (fold (credit_song g) as t) = st_song_counts t"
  "st_song_cover_counts (fold (credit_song g) as t) = st_song_cover_counts t"
  by (induction as arbitrary: t) (simp_all add: counts_credit_song)

lemma counts_count_song:
  "st_song_counts (count_song primary g t) = tally named [g] (st_song_counts t)"
  "st_song_cover_counts (count_song primary g t) = tally named_cover [g] (st_song_cover_counts t)"
  by (simp_all add: count_song_def Let_def counts_fold_credit_song tally_Cons tally_Nil
      named_def named_cover_def)

lemma counts_fold_count_song:
  "st_song_counts (fold (count_song primary) gs t) = tally named gs (st_song_counts t)"
  "st_song_cover_counts (fold (count_song primary) gs t) =
     tally named_cover gs (st_song_cover_counts t)"
proof (induction gs arbitrary: t)
  case Nil
  case 1 show ?case by (simp add: tally_Nil)
  case 2 show ?case by (simp add: tally_Nil)
next
  case (Cons g gs)
  case 1 show ?case
    using Cons.IH(1)[of "count_song primary g t"] counts_count_song(1)[of primary g t]
    by (simp add: tally_Cons tally_Nil)
  case 2 show ?case
    using Cons.IH(2)[of "count_song primary g t"] counts_count_song(2)[of primary g t]
    by (simp add: tally_Cons tally_Nil)
qed

lemma counts_credit_closing:
  "st_song_counts (fold (credit_closing nm) as t) = st_song_counts t"
  "st_song_cover_counts (fold (credit_closing nm) as t) = st_song_cover_counts t"
  by (induction as arbitrary: t) (simp_all add: credit_closing_def)

lemma counts_count_closing:
  "st_song_counts (count_closing primary songs t) = st_song_counts t"
  "st_song_cover_counts (count_closing primary songs t) = st_song_cover_counts t"
  by (simp_all add: count_closing_def counts_credit_closing split: option.split)

lemma non_orphaned_lookup:
  "non_orphaned acd s =
     (case sl_concert_id s of None \<Rightarrow> False | Some cid \<Rightarrow> map_of acd cid \<noteq> None)"
  by (simp add: non_orphaned_def map_of_eq_None_iff split: option.split)

lemma counts_analyse_setlist:
  "st_song_counts (analyse_setlist acd s t) =
     tally named (if non_orphaned acd s then get_or [] (sl_songs s) else []) (st_song_counts t)"
  "st_song_cover_counts (analyse_setlist acd s t) =
     tally named_cover (if non_orphaned acd s then get_or [] (sl_songs s) else [])
       (st_song_cover_counts t)"
  by (auto simp: analyse_setlist_def non_orphaned_lookup counts_count_closing
      counts_fold_count_song tally_Nil split: option.split)

lemma counts_fold_analyse:
  "st_song_counts (fold (analyse_setlist acd) sls t) =
     tally named (analysed_songs acd sls) (st_song_counts t)"
  "st_song_cover_counts (fold (analyse_setlist acd) sls t) =
     tally named_cover (analysed_songs acd sls) (st_song_cover_counts t)"
proof (induction sls arbitrary: t)
  case Nil
  case 1 show ?case by (simp add: analysed_songs_def tally_Nil)
  case 2 show ?case by (simp add: analysed_songs_def tally_Nil)
next
  case (Cons s sls)
  have split: "analysed_songs acd (s # sls) =
      (if non_orphaned acd s then get_or [] (sl_songs s) else []) @ analysed_songs acd sls"
    by (simp add: analysed_songs_def)
  case 1 show ?case
    unfolding split tally_append
    using Cons.IH(1)[of "analyse_setlist acd s t"] by (simp add: counts_analyse_setlist)
  case 2 show ?case
    unfolding split tally_append
    using Cons.IH(2)[of "analyse_setlist acd s t"] by (simp add: counts_analyse_setlist)
qed

lemma song_counts_analytics:
  "st_song_counts (song_analytics acd sls) = tally named (analysed_songs acd sls) []"
  "st_song_cover_counts (song_analytics acd sls) = tally named_cover (analysed_songs acd sls) []"
  by (simp_all add: song_analytics_def counts_fold_analyse empty_tables_def)

lemma times_heard:
  "nm \<noteq> [] \<Longrightarrow> count_of (st_song_counts (song_analytics acd sls)) nm = occurrences acd sls nm"
  unfolding song_counts_analytics count_of_tally occurrences_def named_def
  by (simp add: count_of_def cong: conj_cong)

lemma times_as_cover:
  "nm \<noteq> [] \<Longrightarrow>
     count_of (st_song_cover_counts (song_analytics acd sls)) nm = cover_occurrences acd sls nm"
  unfolding song_counts_analytics count_of_tally cover_occurrences_def named_cover_def
  by (simp add: count_of_def cong: conj_cong)

lemma song_names_analytics:
  "fst ` set (st_song_counts (song_analytics acd sls)) =
     {nm. nm \<noteq> [] \<and> 0 < occurrences acd sls nm}"
  unfolding song_counts_analytics keys_tally occurrences_def named_def
  by (auto simp: filter_empty_conv)

lemma distinct_song_names: "distinct (map fst (st_song_counts (song_analytics acd sls)))"
  unfolding song_counts_analytics by (simp add: distinct_tally)

lemma set_sort_key_desc: "set (sort_key_desc f xs) = set xs"
  by (simp add: sort_key_desc_def)

lemma mset_sort_key_desc: "mset (sort_key_desc f xs) = mset xs"
  by (simp add: sort_key_desc_def)

lemma distinct_map_mset: "mset xs = mset ys \<Longrightarrow> distinct (map f xs) = distinct (map f ys)"
proof -
  assume "mset xs = mset ys"
  then have "mset (map f xs) = mset (map f ys)" by simp
  then show ?thesis by (rule mset_eq_imp_distinct_iff)
qed

lemma as_name_entry: "as_name (song_entry_of t item) = fst item"
  by (simp add: song_entry_of_def)

lemma song_entry_props:
  assumes "e \<in> set (all_songs (song_analytics acd sls))"
  shows "as_name e \<noteq> [] \<and>
         as_times_heard e = occurrences acd sls (as_name e) \<and>
         as_is_mostly_cover e =
           (real (cover_occurrences acd sls (as_name e)) >
              real (occurrences acd sls (as_name e)) / 2)"
proof -
  let ?t = "song_analytics acd sls"
  from assms obtain item where item: "item \<in> set (st_song_counts ?t)" and e: "e = song_entry_of ?t item"
    unfolding all_songs_def set_sort_key_desc by auto
  have nm: "as_name e = fst item" and th: "as_times_heard e = snd item"
    and mc: "as_is_mostly_cover e =
       (real (count_of (st_song_cover_counts ?t) (fst item)) > real (snd item) / 2)"
    unfolding e by (simp_all add: song_entry_of_def)
  from item have "fst item \<in> fst ` set (st_song_counts ?t)" by (rule imageI)
  then have ne: "fst item \<noteq> []" unfolding song_names_analytics by simp
  from item have "(fst item, snd item) \<in> set (st_song_counts ?t)" by simp
  with distinct_song_names have "count_of (st_song_counts ?t) (fst item) = snd item"
    by (rule count_of_entry)
  then have n: "snd item = occurrences acd sls (fst item)"
    using times_heard[OF ne, of acd sls] by simp
  have k: "count_of (st_song_cover_counts ?t) (fst item) = cover_occurrences acd sls (fst item)"
    using ne by (rule times_as_cover)
  show ?thesis unfolding nm th mc k using ne n by simp
qed

lemma all_songs_names:
  "as_name ` set (all_songs (song_analytics acd sls)) =
     {nm. nm \<noteq> [] \<and> 0 < occurrences acd sls nm}"
proof -
  have "as_name ` set (all_songs (song_analytics acd sls)) =
      fst ` set (st_song_counts (song_analytics acd sls))"
    unfolding all_songs_def set_sort_key_desc by (simp add: image_image as_name_entry)
  then show ?thesis unfolding song_names_analytics .
qed

lemma all_songs_distinct: "distinct (map as_name (all_songs (song_analytics acd sls)))"
proof -
  have "map as_name (map (song_entry_of (song_analytics acd sls))
      (st_song_counts (song_analytics acd sls))) = map fst (st_song_counts (song_analytics acd sls))"
    by (simp add: comp_def as_name_entry)
  then have "distinct (map as_name (map (song_entry_of (song_analytics acd sls))
      (st_song_counts (song_analytics acd sls))))"
    using distinct_song_names[of acd sls] by metis
  then show ?thesis
    unfolding all_songs_def
    using distinct_map_mset[OF mset_sort_key_desc] by blast
qed

lemma strict_majority: "(real k > real n / 2) = (n < 2 * k)"
proof -
  have "(real k > real n / 2) = (real n < 2 * real k)" by (simp add: field_simps)
  also have "\<dots> = (real n < real (2 * k))" by simp
  also have "\<dots> = (n < 2 * k)" by (rule of_nat_less_iff)
  finally show ?thesis .
qed

text \<open>
  Claim C6. Every entry of \<^verbatim>\<open>all_songs\<close> has a non-empty name, its
  \<^verbatim>\<open>times_heard\<close> is the number \<open>N\<close> of occurrences of the name in the setlists of
  loaded concerts, and its \<^verbatim>\<open>is_mostly_cover\<close> is true exactly when the number \<open>K\<close>
  of those occurrences flagged as covers exceeds \<open>N / 2\<close> in the reals, that is when
  \<open>N < 2 * K\<close>: not when \<open>K\<close> is exactly half of \<open>N\<close>, and always when \<open>K\<close> is
  \<open>N div 2 + 1\<close>. There is one entry for each name that occurs.
\<close>

theorem is_mostly_cover_strict_majority:
  "(\<forall>e\<in>set (sd_all_songs (songs_json acd sls)).
      as_name e \<noteq> [] \<and>
      as_times_heard e = occurrences acd sls (as_name e) \<and>
      as_is_mostly_cover e =
        (real (cover_occurrences acd sls (as_name e)) >
           real (occurrences acd sls (as_name e)) / 2) \<and>
      as_is_mostly_cover e =
        (occurrences acd sls (as_name e) < 2 * cover_occurrences acd sls (as_name e)) \<and>
      (2 * cover_occurrences acd sls (as_name e) = occurrences acd sls (as_name e) \<longrightarrow>
         \<not> as_is_mostly_cover e) \<and>
      (cover_occurrences acd sls (as_name e) = occurrences acd sls (as_name e) div 2 + 1 \<longrightarrow>
         as_is_mostly_cover e)) \<and>
   as_name ` set (sd_all_songs (songs_json acd sls)) =
     {nm. nm \<noteq> [] \<and> 0 < occurrences acd sls nm} \<and>
   distinct (map as_name (sd_all_songs (songs_json acd sls)))"
proof -
  have all: "sd_all_songs (songs_json acd sls) = all_songs (song_analytics acd sls)"
    by (simp add: songs_json_def)
  have entries: "\<forall>e\<in>set (all_songs (song_analytics acd sls)).
      as_name e \<noteq> [] \<and>
      as_times_heard e = occurrences acd sls (as_name e) \<and>
      as_is_mostly_cover e =
        (real (cover_occurrences acd sls (as_name e)) >
           real (occurrences acd sls (as_name e)) / 2) \<and>
      as_is_mostly_cover e =
        (occurrences acd sls (as_name e) < 2 * cover_occurrences acd sls (as_name e)) \<and>
      (2 * cover_occurrences acd sls (as_name e) = occurrences acd sls (as_name e) \<longrightarrow>
         \<not> as_is_mostly_cover e) \<and>
      (cover_occurrences acd sls (as_name e) = occurrences acd sls (as_name e) div 2 + 1 \<longrightarrow>
         as_is_mostly_cover e)"
  proof
    fix e assume e: "e \<in> set (all_songs (song_analytics acd sls))"
    let ?n = "occurrences acd sls (as_name e)" and ?k = "cover_occurrences acd sls (as_name e)"
    from song_entry_props[OF e] have p: "as_name e \<noteq> []" "as_times_heard e = ?n"
      "as_is_mostly_cover e = (real ?k > real ?n / 2)" by blast+
    have q: "as_is_mostly_cover e = (?n < 2 * ?k)" unfolding p(3) by (rule strict_majority)
    have b1: "2 * ?k = ?n \<longrightarrow> \<not> as_is_mostly_cover e" unfolding q by simp
    have b2: "?k = ?n div 2 + 1 \<longrightarrow> as_is_mostly_cover e" unfolding q by presburger
    from p q b1 b2 show "as_name e \<noteq> [] \<and>
      as_times_heard e = ?n \<and>
      as_is_mostly_cover e = (real ?k > real ?n / 2) \<and>
      as_is_mostly_cover e = (?n < 2 * ?k) \<and>
      (2 * ?k = ?n \<longrightarrow> \<not> as_is_mostly_cover e) \<and>
      (?k = ?n div 2 + 1 \<longrightarrow> as_is_mostly_cover e)" by blast
  qed
  show ?thesis unfolding all using entries all_songs_names all_songs_distinct by blast
qed

theorem is_mostly_cover_strict_majority_witness:
  "\<exists>e\<in>set (sd_all_songs (songs_json (all_concerts_data [(''c1'', night_1)]) [cover_set])).
      \<exists>e'\<in>set (sd_all_songs (songs_json (all_concerts_data [(''c1'', night_1)]) [cover_set])).
      as_name e = ''Half'' \<and> as_times_heard e = 2 \<and> \<not> as_is_mostly_cover e \<and>
      as_name e' = ''Mostly'' \<and> as_times_heard e' = 3 \<and> as_is_mostly_cover e'"
proof -
  let ?acd = "all_concerts_data [(''c1'', night_1)]"
  have n1: "occurrences ?acd [cover_set] ''Half'' = 2" by code_simp
  have k1: "cover_occurrences ?acd [cover_set] ''Half'' = 1" by code_simp
  have n2: "occurrences ?acd [cover_set] ''Mostly'' = 3" by code_simp
  have k2: "cover_occurrences ?acd [cover_set] ''Mostly'' = 2" by code_simp
  note main = is_mostly_cover_strict_majority[of ?acd "[cover_set]"]
  from main n1 have "''Half'' \<in> as_name ` set (sd_all_songs (songs_json ?acd [cover_set]))" by simp
  then obtain e where e: "e \<in> set (sd_all_songs (songs_json ?acd [cover_set]))" "as_name e = ''Half''"
    by auto
  from main n2 have "''Mostly'' \<in> as_name ` set (sd_all_songs (songs_json ?acd [cover_set]))" by simp
  then obtain e' where e': "e' \<in> set (sd_all_songs (songs_json ?acd [cover_set]))" "as_name e' = ''Mostly''"
    by auto
  from main e have pe: "as_times_heard e = 2" "\<not> as_is_mostly_cover e"
    using n1 k1 by auto
  from main e' have pe': "as_times_heard e' = 3" "as_is_mostly_cover e'"
    using n2 k2 by auto
  from e e' pe pe' show ?thesis by blast
qed

subsection \<open>The concerts of a year, and the defaults of a concert row\<close>

lemma positive_incr: "\<forall>p\<in>set m. 0 < snd p \<Longrightarrow> \<forall>p\<in>set (incr k m). 0 < snd p"
proof (induction m)
  case Nil
  show ?case by simp
next
  case (Cons q m)
  obtain k' n where q: "q = (k', n)" by (cases q)
  from Cons.prems q have n: "0 < n" and m: "\<forall>p\<in>set m. 0 < snd p" by simp_all
  show ?case
  proof (cases "k' = k")
    case True
    with q n m show ?thesis by simp
  next
    case False
    with q n Cons.IH[OF m] show ?thesis by simp
  qed
qed

lemma dated_in_step:
  "dated_in y d =
     (4 \<le> length (get_or [] (c_date d)) \<and> py_int (take 4 (get_or [] (c_date d))) = Inr y)"
  by (cases "c_date d") (simp_all add: dated_in_def get_or_def)

lemma by_year_skip:
  assumes "concerts_by_year_dict (d # ds) m = Inr r" and "\<not> 4 \<le> length (get_or [] (c_date d))"
  shows "concerts_by_year_dict ds m = Inr r"
  using assms by simp

lemma by_year_count:
  assumes "concerts_by_year_dict (d # ds) m = Inr r" and "4 \<le> length (get_or [] (c_date d))"
  shows "\<exists>year. py_int (take 4 (get_or [] (c_date d))) = Inr year \<and>
           concerts_by_year_dict ds (incr year m) = Inr r"
proof -
  from assms(2) have ne: "get_or [] (c_date d) \<noteq> []" by auto
  from assms(1) have body: "(case py_int (take 4 (get_or [] (c_date d))) of
           Inl e \<Rightarrow> Inl e
         | Inr year \<Rightarrow> concerts_by_year_dict ds (incr year m)) = Inr r"
    unfolding concerts_by_year_dict.simps using ne assms(2) by (simp only: simp_thms if_True)
  show ?thesis
  proof (cases "py_int (take 4 (get_or [] (c_date d)))")
    case (Inl e)
    with body show ?thesis by simp
  next
    case (Inr year)
    with body show ?thesis by simp
  qed
qed

lemma not_dated_short: "\<not> 4 \<le> length (get_or [] (c_date d)) \<Longrightarrow> \<not> dated_in y d"
  by (simp add: dated_in_step)

lemma dated_year:
  assumes "4 \<le> length (get_or [] (c_date d))" "py_int (take 4 (get_or [] (c_date d))) = Inr year"
  shows "dated_in y d = (y = year)"
  unfolding dated_in_step using assms by auto

text \<open>One pass of the loop over the concerts, when the loop completes.\<close>

lemma by_year_step:
  assumes "concerts_by_year_dict (d # ds) m = Inr r"
  shows "\<exists>m'. concerts_by_year_dict ds m' = Inr r \<and>
           (\<forall>y. count_of m' y = count_of m y + (if dated_in y d then 1 else 0)) \<and>
           (distinct (map fst m) \<longrightarrow> distinct (map fst m')) \<and>
           ((\<forall>p\<in>set m. 0 < snd p) \<longrightarrow> (\<forall>p\<in>set m'. 0 < snd p))"
proof (cases "4 \<le> length (get_or [] (c_date d))")
  case False
  have run: "concerts_by_year_dict ds m = Inr r" using assms False by (rule by_year_skip)
  have c: "\<forall>y. count_of m y = count_of m y + (if dated_in y d then 1 else 0)"
    by (simp add: not_dated_short[OF False])
  have "concerts_by_year_dict ds m = Inr r \<and>
           (\<forall>y. count_of m y = count_of m y + (if dated_in y d then 1 else 0)) \<and>
           (distinct (map fst m) \<longrightarrow> distinct (map fst m)) \<and>
           ((\<forall>p\<in>set m. 0 < snd p) \<longrightarrow> (\<forall>p\<in>set m. 0 < snd p))"
    using run c by simp
  then show ?thesis by (rule exI)
next
  case True
  from by_year_count[OF assms True] obtain year where
    y: "py_int (take 4 (get_or [] (c_date d))) = Inr year"
    and run: "concerts_by_year_dict ds (incr year m) = Inr r" by blast
  have c: "\<forall>y. count_of (incr year m) y = count_of m y + (if dated_in y d then 1 else 0)"
    by (simp add: count_of_incr dated_year[OF True y])
  have di: "distinct (map fst m) \<longrightarrow> distinct (map fst (incr year m))"
    by (simp add: distinct_incr)
  have po: "(\<forall>p\<in>set m. 0 < snd p) \<longrightarrow> (\<forall>p\<in>set (incr year m). 0 < snd p)"
    using positive_incr[of m year] by blast
  have "concerts_by_year_dict ds (incr year m) = Inr r \<and>
           (\<forall>y. count_of (incr year m) y = count_of m y + (if dated_in y d then 1 else 0)) \<and>
           (distinct (map fst m) \<longrightarrow> distinct (map fst (incr year m))) \<and>
           ((\<forall>p\<in>set m. 0 < snd p) \<longrightarrow> (\<forall>p\<in>set (incr year m). 0 < snd p))"
    using run c di po by (intro conjI)
  then show ?thesis by (rule exI)
qed

lemma by_year_dict_result:
  assumes "concerts_by_year_dict ds m = Inr r"
  shows "(\<forall>y. count_of r y = count_of m y + length (filter (dated_in y) ds)) \<and>
         (distinct (map fst m) \<longrightarrow> distinct (map fst r)) \<and>
         ((\<forall>p\<in>set m. 0 < snd p) \<longrightarrow> (\<forall>p\<in>set r. 0 < snd p))"
  using assms
proof (induction ds arbitrary: m)
  case Nil
  then have "r = m" by simp
  then show ?case by simp
next
  case (Cons d ds)
  from by_year_step[OF Cons.prems] obtain m' where
    run: "concerts_by_year_dict ds m' = Inr r"
    and c: "\<And>y. count_of m' y = count_of m y + (if dated_in y d then 1 else 0)"
    and di: "distinct (map fst m) \<longrightarrow> distinct (map fst m')"
    and po: "(\<forall>p\<in>set m. 0 < snd p) \<longrightarrow> (\<forall>p\<in>set m'. 0 < snd p)"
    by blast
  from Cons.IH[OF run] have
    c': "\<And>y. count_of r y = count_of m' y + length (filter (dated_in y) ds)"
    and di': "distinct (map fst m') \<longrightarrow> distinct (map fst r)"
    and po': "(\<forall>p\<in>set m'. 0 < snd p) \<longrightarrow> (\<forall>p\<in>set r. 0 < snd p)"
    by blast+
  have c2: "\<forall>y. count_of r y = count_of m y + length (filter (dated_in y) (d # ds))"
    unfolding c' c by simp
  from c2 di di' po po' show ?case by blast
qed

lemma distinct_keys_sort_key_desc:
  "distinct (map fst (sort_key_desc f m)) = distinct (map fst m)"
  by (rule distinct_map_mset) (rule mset_sort_key_desc)

lemma count_of_sort_key_desc:
  assumes "distinct (map fst m)"
  shows "count_of (sort_key_desc f m) y = count_of m y"
proof -
  have d: "distinct (map fst (sort_key_desc f m))"
    unfolding distinct_keys_sort_key_desc by (rule assms)
  have s: "set (sort_key_desc f m) = set m" by (rule set_sort_key_desc)
  from map_of_inject_set[OF d assms] s have "map_of (sort_key_desc f m) = map_of m" by blast
  then show ?thesis unfolding count_of_def by simp
qed

lemma fst_mono_pair:
  fixes p q :: "int \<times> nat"
  shows "p \<le> q \<Longrightarrow> fst p \<le> fst q"
  unfolding less_eq_prod_def by auto

lemma sorted_map_fst:
  fixes xs :: "(int \<times> nat) list"
  assumes "sorted xs"
  shows "sorted (map fst xs)"
  using assms
proof (induction xs)
  case Nil
  show ?case by simp
next
  case (Cons p xs)
  from Cons.prems have le: "\<forall>q\<in>set xs. p \<le> q" and s: "sorted xs" by simp_all
  from le have "\<forall>q\<in>set xs. fst p \<le> fst q" using fst_mono_pair by blast
  with Cons.IH[OF s] show ?case by simp
qed

lemma concerts_by_year_result:
  assumes "concerts_by_year acd = Inr r"
  shows "(\<forall>y. count_of r y = length (filter (\<lambda>item. dated_in y (snd item)) acd)) \<and>
         distinct (map fst r) \<and> (\<forall>p\<in>set r. 0 < snd p) \<and> sorted (rev (map fst r))"
proof -
  from assms obtain m where m: "concerts_by_year_dict (map snd acd) [] = Inr m"
      and r: "r = sort_key_desc (\<lambda>item. item) m"
    by (cases "concerts_by_year_dict (map snd acd) []") (simp_all add: concerts_by_year_def)
  note res = by_year_dict_result[OF m]
  from res have cnt: "\<forall>y. count_of m y = length (filter (dated_in y) (map snd acd))"
    by (simp add: count_of_def)
  from res have dm: "distinct (map fst m)" by simp
  from res have pm: "\<forall>p\<in>set m. 0 < snd p" by simp
  have fm: "filter (dated_in y) (map snd acd) = map snd (filter (\<lambda>item. dated_in y (snd item)) acd)"
    for y by (simp add: filter_map comp_def)
  have c: "\<forall>y. count_of r y = length (filter (\<lambda>item. dated_in y (snd item)) acd)"
  proof
    fix y
    have "count_of r y = count_of m y" unfolding r using dm by (rule count_of_sort_key_desc)
    also have "\<dots> = length (filter (dated_in y) (map snd acd))" using cnt by simp
    also have "\<dots> = length (filter (\<lambda>item. dated_in y (snd item)) acd)"
      unfolding fm by simp
    finally show "count_of r y = length (filter (\<lambda>item. dated_in y (snd item)) acd)" .
  qed
  have d: "distinct (map fst r)" unfolding r distinct_keys_sort_key_desc by (rule dm)
  have p: "\<forall>p\<in>set r. 0 < snd p" unfolding r set_sort_key_desc by (rule pm)
  have "sorted (map (\<lambda>item. item) (sort_key (\<lambda>item. item) (rev m)))" by (rule sorted_sort_key)
  then have "sorted (sort_key (\<lambda>item. item) (rev m))" by simp
  then have "sorted (map fst (sort_key (\<lambda>item. item) (rev m)))" by (rule sorted_map_fst)
  moreover have "rev (map fst r) = map fst (sort_key (\<lambda>item. item) (rev m))"
    unfolding r sort_key_desc_def by (simp add: rev_map)
  ultimately have s: "sorted (rev (map fst r))" by simp
  from c d p s show ?thesis by (intro conjI)
qed

lemma stats_by_year:
  assumes "stats_json acd sls artists venues = Inr st"
  shows "concerts_by_year acd = Inr (stat_concerts_by_year st)"
proof (cases "concerts_by_year acd")
  case (Inl e)
  with assms show ?thesis by (simp add: stats_json_def)
next
  case (Inr by_year)
  with assms have "stat_concerts_by_year st = by_year" by (auto simp: stats_json_def)
  with Inr show ?thesis by simp
qed

lemma patched_row:
  "row_date (if c then r\<lparr>row_hasSetlist := True\<rparr> else r) = row_date r"
  "row_venue (if c then r\<lparr>row_hasSetlist := True\<rparr> else r) = row_venue r"
  "row_city (if c then r\<lparr>row_hasSetlist := True\<rparr> else r) = row_city r"
  "row_state (if c then r\<lparr>row_hasSetlist := True\<rparr> else r) = row_state r"
  "row_setlist_status (if c then r\<lparr>row_hasSetlist := True\<rparr> else r) = row_setlist_status r"
  "row_show_number (if c then r\<lparr>row_hasSetlist := True\<rparr> else r) = row_show_number r"
  "row_festival_name (if c then r\<lparr>row_hasSetlist := True\<rparr> else r) = row_festival_name r"
  "row_artists (if c then r\<lparr>row_hasSetlist := True\<rparr> else r) = row_artists r"
  by simp_all

lemma is_primary_roles:
  "is_primary = (\<lambda>a. ar_role a = Some ''headliner'' \<or> ar_role a = Some ''festival_performer'')"
  by (simp add: fun_eq_iff is_primary_def)

lemma row_defaults:
  "map row_date (concerts_json docs sls) =
     map (\<lambda>p. case c_date (snd p) of None \<Rightarrow> [] | Some s \<Rightarrow> s) docs"
  "map row_venue (concerts_json docs sls) =
     map (\<lambda>p. case c_venue_name (snd p) of None \<Rightarrow> [] | Some s \<Rightarrow> s) docs"
  "map row_city (concerts_json docs sls) =
     map (\<lambda>p. case c_city (snd p) of None \<Rightarrow> [] | Some s \<Rightarrow> s) docs"
  "map row_state (concerts_json docs sls) =
     map (\<lambda>p. case c_state (snd p) of None \<Rightarrow> [] | Some s \<Rightarrow> s) docs"
  "map row_setlist_status (concerts_json docs sls) =
     map (\<lambda>p. case c_setlist_status (snd p) of None \<Rightarrow> ''not_researched'' | Some s \<Rightarrow> s) docs"
  "map row_show_number (concerts_json docs sls) = map (\<lambda>p. c_show_number (snd p)) docs"
  "map row_festival_name (concerts_json docs sls) = map (\<lambda>p. c_festival_name (snd p)) docs"
  "map row_artists (concerts_json docs sls) =
     map (\<lambda>p. join_comma
                 (map (\<lambda>a. case ar_artist_name a of None \<Rightarrow> [] | Some n \<Rightarrow> n)
                    (filter (\<lambda>a. ar_role a = Some ''headliner'' \<or>
                                  ar_role a = Some ''festival_performer'')
                       (case c_artists (snd p) of None \<Rightarrow> [] | Some as \<Rightarrow> as)))) docs"
  by (simp_all add: concerts_json_def concerts_list_def split_def comp_def patched_row
      concert_row_of_def get_or_def artist_names_def primary_artists_def is_primary_roles)

lemma undated:
  "(c_date d = None \<longrightarrow> \<not> dated_in y d) \<and>
   (\<forall>s. c_date d = Some s \<and> length s < 4 \<longrightarrow> \<not> dated_in y d)"
  by (auto simp: dated_in_def)

lemma stats_by_year_result:
  assumes "stats_json acd sls artists venues = Inr st"
  shows "(\<forall>y. count_of (stat_concerts_by_year st) y =
               length (filter (\<lambda>item. dated_in y (snd item)) acd)) \<and>
         distinct (map fst (stat_concerts_by_year st)) \<and>
         (\<forall>p\<in>set (stat_concerts_by_year st). 0 < snd p) \<and>
         sorted (rev (map fst (stat_concerts_by_year st)))"
  using assms by (intro concerts_by_year_result stats_by_year)

text \<open>
  Claim C5, as amended. In \<^verbatim>\<open>concerts.json\<close> a field that the concert document
  lacks appears as its default: the empty string for the date, venue, city and state,
  \<open>not_researched\<close> for the setlist status, null for the show number and the festival
  name, and the empty roster for the artists. In the table of concerts by year a concert
  is counted under year \<open>y\<close> exactly when its date has at least 4 characters and
  \<^verbatim>\<open>int\<close> of the first 4 is \<open>y\<close>: a date that is absent or shorter counts under no
  year. The table has one entry for each year with a concert, in descending order of the
  years. The loop over the concerts completes exactly when, for every concert whose date
  has at least 4 characters, \<^verbatim>\<open>int\<close> accepts the first 4; four decimal digits are
  accepted. \<^verbatim>\<open>stats.json\<close> and the files of the later stages are written exactly
  when the loop completes: a \<^verbatim>\<open>ValueError\<close> of \<^verbatim>\<open>int\<close> ends the run.
\<close>

theorem concerts_by_year_completes:
  "((\<exists>r. concerts_by_year acd = Inr r) =
      (\<forall>item\<in>set acd. 4 \<le> length (get_or [] (c_date (snd item))) \<longrightarrow>
         (\<exists>y. py_int (take 4 (get_or [] (c_date (snd item)))) = Inr y))) \<and>
   ((\<forall>item\<in>set acd. 4 \<le> length (get_or [] (c_date (snd item))) \<longrightarrow>
         (\<forall>c\<in>set (take 4 (get_or [] (c_date (snd item)))). py_isdigit c)) \<longrightarrow>
      (\<exists>r. concerts_by_year acd = Inr r)) \<and>
   ((\<exists>st. stats_json acd sls artists venues = Inr st) = (\<exists>r. concerts_by_year acd = Inr r)) \<and>
   ((\<exists>later. ef_later (export_to_json docs sls artist_docs venue_docs dir0) = Inr later) =
      (\<exists>r. concerts_by_year (all_concerts_data docs) = Inr r)) \<and>
   (stats_json acd sls artists venues = Inr st \<longrightarrow>
      (\<forall>y. count_of (stat_concerts_by_year st) y =
            length (filter (\<lambda>item. dated_in y (snd item)) acd)) \<and>
      distinct (map fst (stat_concerts_by_year st)) \<and>
      (\<forall>p\<in>set (stat_concerts_by_year st). 0 < snd p) \<and>
      sorted (rev (map fst (stat_concerts_by_year st)))) \<and>
   ((c_date d = None \<longrightarrow> \<not> dated_in y d) \<and>
    (\<forall>s. c_date d = Some s \<and> length s < 4 \<longrightarrow> \<not> dated_in y d)) \<and>
   map row_date (concerts_json docs sls) =
     map (\<lambda>p. case c_date (snd p) of None \<Rightarrow> [] | Some s \<Rightarrow> s) docs \<and>
   map row_venue (concerts_json docs sls) =
     map (\<lambda>p. case c_venue_name (snd p) of None \<Rightarrow> [] | Some s \<Rightarrow> s) docs \<and>
   map row_city (concerts_json docs sls) =
     map (\<lambda>p. case c_city (snd p) of None \<Rightarrow> [] | Some s \<Rightarrow> s) docs \<and>
   map row_state (concerts_json docs sls) =
     map (\<lambda>p. case c_state (snd p) of None \<Rightarrow> [] | Some s \<Rightarrow> s) docs \<and>
   map row_setlist_status (concerts_json docs sls) =
     map (\<lambda>p. case c_setlist_status (snd p) of None \<Rightarrow> ''not_researched'' | Some s \<Rightarrow> s) docs \<and>
   map row_show_number (concerts_json docs sls) = map (\<lambda>p. c_show_number (snd p)) docs \<and>
   map row_festival_name (concerts_json docs sls) = map (\<lambda>p. c_festival_name (snd p)) docs \<and>
   map row_artists (concerts_json docs sls) =
     map (\<lambda>p. join_comma
                 (map (\<lambda>a. case ar_artist_name a of None \<Rightarrow> [] | Some n \<Rightarrow> n)
                    (filter (\<lambda>a. ar_role a = Some ''headliner'' \<or>
                                  ar_role a = Some ''festival_performer'')
                       (case c_artists (snd p) of None \<Rightarrow> [] | Some as \<Rightarrow> as)))) docs"
proof -
  note old = year_loop_completes[of acd sls artists venues docs artist_docs venue_docs dir0]
  have res: "stats_json acd sls artists venues = Inr st \<longrightarrow>
      (\<forall>y. count_of (stat_concerts_by_year st) y =
            length (filter (\<lambda>item. dated_in y (snd item)) acd)) \<and>
      distinct (map fst (stat_concerts_by_year st)) \<and>
      (\<forall>p\<in>set (stat_concerts_by_year st). 0 < snd p) \<and>
      sorted (rev (map fst (stat_concerts_by_year st)))"
    using stats_by_year_result by blast
  show ?thesis
    by (intro conjI old[THEN conjunct1] old[THEN conjunct2, THEN conjunct1]
        old[THEN conjunct2, THEN conjunct2, THEN conjunct1]
        old[THEN conjunct2, THEN conjunct2, THEN conjunct2]
        res undated[THEN conjunct1] undated[THEN conjunct2] row_defaults)
qed

theorem concerts_by_year_completes_witness:
  "(\<exists>r. concerts_by_year [(''c1'', night_1), (''c3'', blank_concert),
          (''c4'', blank_concert\<lparr>c_date := Some ''201''\<rparr>)] = Inr r) \<and>
   concerts_by_year [(''c1'', night_1), (''c3'', blank_concert),
          (''c4'', blank_concert\<lparr>c_date := Some ''201''\<rparr>)] = Inr [(2019, 1)] \<and>
   map row_date (concerts_json [(''c1'', night_1), (''c3'', blank_concert)] []) = [''2019-07-04'', []]"
proof -
  let ?acd = "[(''c1'', night_1), (''c3'', blank_concert),
          (''c4'', blank_concert\<lparr>c_date := Some ''201''\<rparr>)]"
  have h: "\<forall>item\<in>set ?acd.
            4 \<le> length (get_or [] (c_date (snd item))) \<longrightarrow>
            (\<forall>c\<in>set (take 4 (get_or [] (c_date (snd item)))). py_isdigit c)"
    by code_simp
  have v: "concerts_by_year ?acd = Inr [(2019, 1)]" by code_simp
  have w: "map row_date (concerts_json [(''c1'', night_1), (''c3'', blank_concert)] []) =
      [''2019-07-04'', []]" by code_simp
  note main = concerts_by_year_completes[of ?acd]
  from main[THEN conjunct2, THEN conjunct1] h have e: "\<exists>r. concerts_by_year ?acd = Inr r"
    by (rule mp)
  from e v w show ?thesis by (intro conjI)
qed

subsection \<open>The order of the setlists of a concert\<close>

lemma role_priority_opener: "role_priority r = (if r = ''opener'' then 1 else 2)"
  by (simp add: role_priority_def get_or_def)

lemma sorted_pairs_nth:
  fixes ks :: "(int \<times> string) list"
  assumes "sorted ks" and "i < j" and "j < length ks"
  shows "fst (ks ! i) < fst (ks ! j) \<or> (fst (ks ! i) = fst (ks ! j) \<and> snd (ks ! i) \<le> snd (ks ! j))"
proof -
  from assms have "ks ! i \<le> ks ! j" by (simp add: sorted_iff_nth_mono_less)
  then show ?thesis unfolding less_eq_prod_def by auto
qed

lemma sorted_setlists_openers_first:
  "mset (sorted_setlists d sls) = mset sls \<and>
   sorted (map (setlist_sort_key d) (sorted_setlists d sls)) \<and>
   (\<forall>i j. i < j \<and> j < length (sorted_setlists d sls) \<longrightarrow>
      role_priority (setlist_role d (sorted_setlists d sls ! i)) <
        role_priority (setlist_role d (sorted_setlists d sls ! j)) \<or>
      (role_priority (setlist_role d (sorted_setlists d sls ! i)) =
         role_priority (setlist_role d (sorted_setlists d sls ! j)) \<and>
       get_or [] (sl_artist_name (sorted_setlists d sls ! i)) \<le>
         get_or [] (sl_artist_name (sorted_setlists d sls ! j)))) \<and>
   (\<forall>s. role_priority (setlist_role d s) = (if setlist_role d s = ''opener'' then 1 else 2)) \<and>
   (\<forall>i j. i < j \<and> j < length (sorted_setlists d sls) \<and>
      setlist_role d (sorted_setlists d sls ! j) = ''opener'' \<longrightarrow>
      setlist_role d (sorted_setlists d sls ! i) = ''opener'')"
proof -
  let ?R = "sorted_setlists d sls"
  have perm: "mset ?R = mset sls" by (simp add: sorted_setlists_def)
  have srt: "sorted (map (setlist_sort_key d) ?R)"
    unfolding sorted_setlists_def by (rule sorted_sort_key)
  have order: "role_priority (setlist_role d (?R ! i)) < role_priority (setlist_role d (?R ! j)) \<or>
      (role_priority (setlist_role d (?R ! i)) = role_priority (setlist_role d (?R ! j)) \<and>
       get_or [] (sl_artist_name (?R ! i)) \<le> get_or [] (sl_artist_name (?R ! j)))"
    if "i < j" and "j < length ?R" for i j
  proof -
    from that have j: "j < length (map (setlist_sort_key d) ?R)" and i: "i < length ?R" by simp_all
    from sorted_pairs_nth[OF srt that(1) j] show ?thesis
      using i that(2) by (simp add: setlist_sort_key_def)
  qed
  have prio: "\<forall>s. role_priority (setlist_role d s) = (if setlist_role d s = ''opener'' then 1 else 2)"
    by (simp add: role_priority_opener)
  have first: "setlist_role d (?R ! i) = ''opener''"
    if "i < j" and "j < length ?R" and "setlist_role d (?R ! j) = ''opener''" for i j
  proof (rule ccontr)
    assume "setlist_role d (?R ! i) \<noteq> ''opener''"
    then have "role_priority (setlist_role d (?R ! i)) = 2" by (simp add: role_priority_opener)
    moreover from that(3) have "role_priority (setlist_role d (?R ! j)) = 1"
      by (simp add: role_priority_opener)
    ultimately show False using order[OF that(1,2)] by simp
  qed
  from perm srt order prio first show ?thesis by blast
qed

lemma map_of_dict_set: "map_of (dict_set k v m) = (map_of m)(k \<mapsto> v)"
  by (induction m) (auto simp: fun_eq_iff)

lemma find_append:
  "find P (xs @ ys) = (case find P xs of None \<Rightarrow> find P ys | Some x \<Rightarrow> Some x)"
  by (induction xs) simp_all

lemma map_of_fold_set_role:
  "map_of (fold set_role as m0) key =
     (case find (\<lambda>a. ar_artist_name a = key) (rev as) of
        None \<Rightarrow> map_of m0 key
      | Some a \<Rightarrow> Some (get_or ''headliner'' (ar_role a)))"
proof (induction as arbitrary: m0)
  case Nil
  show ?case by simp
next
  case (Cons a as)
  show ?case
  proof (cases "find (\<lambda>a. ar_artist_name a = key) (rev as)")
    case None
    then show ?thesis
      using Cons.IH[of "set_role a m0"]
      by (simp add: find_append set_role_def map_of_dict_set)
  next
    case (Some b)
    then show ?thesis
      using Cons.IH[of "set_role a m0"] by (simp add: find_append)
  qed
qed

lemma setlist_role_roster: "setlist_role d s = roster_role d (sl_artist_name s)"
proof -
  have "artist_roles d = fold set_role (get_or [] (c_artists d)) []"
    unfolding artist_roles_def set_role_def ..
  then have "map_of (artist_roles d) (sl_artist_name s) =
      (case find (\<lambda>a. ar_artist_name a = sl_artist_name s) (rev (get_or [] (c_artists d))) of
         None \<Rightarrow> None
       | Some a \<Rightarrow> Some (get_or ''headliner'' (ar_role a)))"
    by (simp add: map_of_fold_set_role split: option.split)
  then show ?thesis
    by (simp add: setlist_role_def roster_role_def get_or_def split: option.split)
qed

lemma detail_files_of_groups:
  assumes "fl \<in> set (concert_details acd all_sls)"
  shows "\<exists>d grp. map_of acd (fst fl) = Some d \<and>
           (fst fl, grp) \<in> set (setlists_by_concert acd all_sls) \<and>
           snd fl = concert_detail_of (fst fl) d grp"
proof -
  from assms obtain item where item: "item \<in> set (setlists_by_concert acd all_sls)"
      and fl: "fl \<in> set (detail_file acd item)"
    unfolding concert_details_def by auto
  show ?thesis
  proof (cases "map_of acd (fst item)")
    case None
    with fl show ?thesis by (simp add: detail_file_def)
  next
    case (Some d)
    with fl have eq: "fl = (fst item, concert_detail_of (fst item) d (snd item))"
      by (simp add: detail_file_def)
    have a: "map_of acd (fst fl) = Some d" using Some eq by simp
    have b: "(fst fl, snd item) \<in> set (setlists_by_concert acd all_sls)" using item eq by simp
    have c: "snd fl = concert_detail_of (fst fl) d (snd item)" using eq by simp
    from a b c show ?thesis by blast
  qed
qed

lemma multi_detail:
  assumes "length sls \<noteq> 1"
  shows "cd_setlist_part (concert_detail_of cid d sls) = multi_part d sls"
proof (cases sls)
  case Nil
  then show ?thesis by (simp add: concert_detail_of_def)
next
  case (Cons s rest)
  with assms obtain s' rest' where "rest = s' # rest'" by (cases rest) auto
  with Cons show ?thesis by (simp add: concert_detail_of_def)
qed

lemma ms_setlists_multi_part:
  "ms_setlists (multi_part d sls) = map (format_setlist d) (sorted_setlists d sls)"
  by (simp add: multi_part_def)

lemma is_multi_part: "\<exists>E n b. multi_part d sls = MultiSetlist E n b"
  by (simp add: multi_part_def)

lemma format_setlist_fields:
  "fsl_artist_name (format_setlist d s) = sl_artist_name s"
  "fsl_artist_role (format_setlist d s) = setlist_role d s"
  by (simp_all add: format_setlist_def)

text \<open>
  Claim C7. Every file of \<^verbatim>\<open>concert_details/\<close> is the detail object of a loaded
  concert and its group of setlists. For a group that is not a single setlist the object
  carries the array \<^verbatim>\<open>setlists\<close>, and this array holds exactly the formatted
  setlists of the group; each element has the artist name of its setlist and, as
  \<^verbatim>\<open>artist_role\<close>, the role of that name in the concert's roster, \<open>headliner\<close>
  when the name is not in the roster. Of two elements the earlier is an opener's and the
  later not, or both or neither are openers' and the earlier artist name is not greater.
  So no element of another role stands before an opener's. For the concert \<open>c1\<close> with
  setlists of the headliner, of a guest outside the roster and of the opener, the array
  is opener, guest, headliner in either input order.
\<close>

theorem emitted_setlists_openers_first:
  "(\<forall>fl\<in>set (concert_details acd all_sls).
      \<exists>d grp. map_of acd (fst fl) = Some d \<and>
        (fst fl, grp) \<in> set (setlists_by_concert acd all_sls) \<and>
        snd fl = concert_detail_of (fst fl) d grp) \<and>
   (length sls \<noteq> 1 \<longrightarrow>
      (\<exists>E n b.
         cd_setlist_part (concert_detail_of cid d sls) = MultiSetlist E n b \<and>
         mset E = mset (map (format_setlist d) sls) \<and>
         (\<forall>ob\<in>set E. \<exists>s\<in>set sls.
            ob = format_setlist d s \<and> fsl_artist_name ob = sl_artist_name s \<and>
            fsl_artist_role ob = roster_role d (sl_artist_name s)) \<and>
         (\<forall>i j. i < j \<and> j < length E \<longrightarrow>
            (fsl_artist_role (E ! i) = ''opener'' \<and> fsl_artist_role (E ! j) \<noteq> ''opener'') \<or>
            ((fsl_artist_role (E ! i) = ''opener'') = (fsl_artist_role (E ! j) = ''opener'') \<and>
             (case fsl_artist_name (E ! i) of None \<Rightarrow> [] | Some nm \<Rightarrow> nm) \<le>
               (case fsl_artist_name (E ! j) of None \<Rightarrow> [] | Some nm \<Rightarrow> nm))) \<and>
         (\<forall>i j. i < j \<and> j < length E \<and> fsl_artist_role (E ! j) = ''opener'' \<longrightarrow>
            fsl_artist_role (E ! i) = ''opener''))) \<and>
   map (\<lambda>fl. (fst fl, map (\<lambda>ob. (fsl_artist_name ob, fsl_artist_role ob))
                          (ms_setlists (cd_setlist_part (snd fl)))))
     (concert_details (all_concerts_data [(''c1'', night_1)])
        [headliner_set ''c1'', guest_set ''c1'', opener_set ''c1'']) =
     [(''c1'', [(Some ''Opener A'', ''opener''), (Some ''Guest C'', ''headliner''),
               (Some ''Headliner B'', ''headliner'')])] \<and>
   map (\<lambda>fl. (fst fl, map (\<lambda>ob. (fsl_artist_name ob, fsl_artist_role ob))
                          (ms_setlists (cd_setlist_part (snd fl)))))
     (concert_details (all_concerts_data [(''c1'', night_1)])
        [opener_set ''c1'', headliner_set ''c1'', guest_set ''c1'']) =
     [(''c1'', [(Some ''Opener A'', ''opener''), (Some ''Guest C'', ''headliner''),
               (Some ''Headliner B'', ''headliner'')])]"
proof -
  have files: "\<forall>fl\<in>set (concert_details acd all_sls).
      \<exists>d grp. map_of acd (fst fl) = Some d \<and>
        (fst fl, grp) \<in> set (setlists_by_concert acd all_sls) \<and>
        snd fl = concert_detail_of (fst fl) d grp"
    using detail_files_of_groups by blast
  have multi: "\<exists>E n b.
         cd_setlist_part (concert_detail_of cid d sls) = MultiSetlist E n b \<and>
         mset E = mset (map (format_setlist d) sls) \<and>
         (\<forall>ob\<in>set E. \<exists>s\<in>set sls.
            ob = format_setlist d s \<and> fsl_artist_name ob = sl_artist_name s \<and>
            fsl_artist_role ob = roster_role d (sl_artist_name s)) \<and>
         (\<forall>i j. i < j \<and> j < length E \<longrightarrow>
            (fsl_artist_role (E ! i) = ''opener'' \<and> fsl_artist_role (E ! j) \<noteq> ''opener'') \<or>
            ((fsl_artist_role (E ! i) = ''opener'') = (fsl_artist_role (E ! j) = ''opener'') \<and>
             (case fsl_artist_name (E ! i) of None \<Rightarrow> [] | Some nm \<Rightarrow> nm) \<le>
               (case fsl_artist_name (E ! j) of None \<Rightarrow> [] | Some nm \<Rightarrow> nm))) \<and>
         (\<forall>i j. i < j \<and> j < length E \<and> fsl_artist_role (E ! j) = ''opener'' \<longrightarrow>
            fsl_artist_role (E ! i) = ''opener'')"
    if len: "length sls \<noteq> 1"
  proof -
    let ?R = "sorted_setlists d sls"
    define E where "E = map (format_setlist d) ?R"
    have perm: "mset ?R = mset sls" by (simp add: sorted_setlists_def)
    have lenE: "length E = length ?R" by (simp add: E_def)
    have nth: "E ! i = format_setlist d (?R ! i)" if "i < length ?R" for i
      using that by (simp add: E_def)
    have role: "fsl_artist_role (E ! i) = setlist_role d (?R ! i)" if "i < length ?R" for i
      using nth[OF that] by (simp add: format_setlist_fields)
    have name: "(case fsl_artist_name (E ! i) of None \<Rightarrow> [] | Some nm \<Rightarrow> nm) =
        get_or [] (sl_artist_name (?R ! i))" if "i < length ?R" for i
      using nth[OF that] by (simp add: format_setlist_fields get_or_def)
    obtain n b where part: "multi_part d sls = MultiSetlist E n b"
      unfolding E_def by (simp add: multi_part_def)
    have p1: "cd_setlist_part (concert_detail_of cid d sls) = MultiSetlist E n b"
      using multi_detail[OF len] part by simp
    have p2: "mset E = mset (map (format_setlist d) sls)"
      unfolding E_def using perm by (metis mset_map)
    have p3: "\<forall>ob\<in>set E. \<exists>s\<in>set sls.
            ob = format_setlist d s \<and> fsl_artist_name ob = sl_artist_name s \<and>
            fsl_artist_role ob = roster_role d (sl_artist_name s)"
    proof
      fix ob assume "ob \<in> set E"
      then obtain s where s: "s \<in> set ?R" "ob = format_setlist d s"
        unfolding E_def by auto
      from s(1) have "s \<in> set sls" by (simp add: sorted_setlists_def)
      with s(2) show "\<exists>s\<in>set sls.
            ob = format_setlist d s \<and> fsl_artist_name ob = sl_artist_name s \<and>
            fsl_artist_role ob = roster_role d (sl_artist_name s)"
        by (auto simp: format_setlist_fields setlist_role_roster)
    qed
    have key: "role_priority (setlist_role d (?R ! i)) < role_priority (setlist_role d (?R ! j)) \<or>
        (role_priority (setlist_role d (?R ! i)) = role_priority (setlist_role d (?R ! j)) \<and>
         get_or [] (sl_artist_name (?R ! i)) \<le> get_or [] (sl_artist_name (?R ! j)))"
      if "i < j" "j < length ?R" for i j
      using sorted_setlists_openers_first[of d sls] that by blast
    have p4: "(fsl_artist_role (E ! i) = ''opener'' \<and> fsl_artist_role (E ! j) \<noteq> ''opener'') \<or>
            ((fsl_artist_role (E ! i) = ''opener'') = (fsl_artist_role (E ! j) = ''opener'') \<and>
             (case fsl_artist_name (E ! i) of None \<Rightarrow> [] | Some nm \<Rightarrow> nm) \<le>
               (case fsl_artist_name (E ! j) of None \<Rightarrow> [] | Some nm \<Rightarrow> nm))"
      if ij: "i < j" "j < length E" for i j
    proof -
      from ij lenE have j: "j < length ?R" and i: "i < length ?R" by simp_all
      from key[OF ij(1) j] show ?thesis
        unfolding role[OF i] role[OF j] name[OF i] name[OF j] role_priority_opener
        by (auto split: if_splits)
    qed
    have p5: "fsl_artist_role (E ! i) = ''opener''"
      if ij: "i < j" "j < length E" "fsl_artist_role (E ! j) = ''opener''" for i j
      using p4[OF ij(1,2)] ij(3) by blast
    from p1 p2 p3 p4 p5 show ?thesis by blast
  qed
  have x1: "map (\<lambda>fl. (fst fl, map (\<lambda>ob. (fsl_artist_name ob, fsl_artist_role ob))
                          (ms_setlists (cd_setlist_part (snd fl)))))
     (concert_details (all_concerts_data [(''c1'', night_1)])
        [headliner_set ''c1'', guest_set ''c1'', opener_set ''c1'']) =
     [(''c1'', [(Some ''Opener A'', ''opener''), (Some ''Guest C'', ''headliner''),
               (Some ''Headliner B'', ''headliner'')])]"
    by code_simp
  have x2: "map (\<lambda>fl. (fst fl, map (\<lambda>ob. (fsl_artist_name ob, fsl_artist_role ob))
                          (ms_setlists (cd_setlist_part (snd fl)))))
     (concert_details (all_concerts_data [(''c1'', night_1)])
        [opener_set ''c1'', headliner_set ''c1'', guest_set ''c1'']) =
     [(''c1'', [(Some ''Opener A'', ''opener''), (Some ''Guest C'', ''headliner''),
               (Some ''Headliner B'', ''headliner'')])]"
    by code_simp
  from files multi x1 x2 show ?thesis by blast
qed

theorem emitted_setlists_openers_first_witness:
  "length [headliner_set ''c1'', guest_set ''c1'', opener_set ''c1''] \<noteq> 1 \<and>
   (\<exists>E n b.
      cd_setlist_part (concert_detail_of ''c1'' night_1
        [headliner_set ''c1'', guest_set ''c1'', opener_set ''c1'']) = MultiSetlist E n b \<and>
      mset E = mset (map (format_setlist night_1)
        [headliner_set ''c1'', guest_set ''c1'', opener_set ''c1'']) \<and>
      map fsl_artist_role E = [''opener'', ''headliner'', ''headliner''])"
proof -
  let ?sls = "[headliner_set ''c1'', guest_set ''c1'', opener_set ''c1'']"
  have h: "length ?sls \<noteq> 1" by simp
  have v: "map fsl_artist_role (ms_setlists (cd_setlist_part (concert_detail_of ''c1'' night_1 ?sls)))
      = [''opener'', ''headliner'', ''headliner'']"
    by code_simp
  from emitted_setlists_openers_first[of _ _ ?sls "''c1''" night_1] h
  obtain E n b where
    E: "cd_setlist_part (concert_detail_of ''c1'' night_1 ?sls) = MultiSetlist E n b"
       "mset E = mset (map (format_setlist night_1) ?sls)"
    by blast
  from v E(1) have r: "map fsl_artist_role E = [''opener'', ''headliner'', ''headliner'']" by simp
  show ?thesis
  proof (intro conjI exI)
    show "length ?sls \<noteq> 1" by (rule h)
    show "cd_setlist_part (concert_detail_of ''c1'' night_1 ?sls) = MultiSetlist E n b"
      by (rule E(1))
    show "mset E = mset (map (format_setlist night_1) ?sls)" by (rule E(2))
    show "map fsl_artist_role E = [''opener'', ''headliner'', ''headliner'']" by (rule r)
  qed
qed

subsection \<open>Concert counts of artists and venues\<close>

lemma count_of_Nil: "count_of [] k = 0"
  by (simp add: count_of_def)

lemma count_of_count_artist:
  "count_of (count_artist a m) k =
     count_of m k + (if k \<noteq> [] \<and> ar_artist_id a = Some k then 1 else 0)"
  by (cases "ar_artist_id a") (auto simp: count_artist_def truthy_def get_or_def count_of_incr)

lemma count_of_fold_count_artist:
  "count_of (fold count_artist as m) k =
     count_of m k + (if k \<noteq> [] then length (filter (\<lambda>a. ar_artist_id a = Some k) as) else 0)"
  by (induction as arbitrary: m) (simp_all add: count_of_count_artist)

lemma count_of_fold_concert_artists:
  "count_of (fold count_concert_artists ds m) k =
     count_of m k +
     (if k \<noteq> [] then sum_list (map (\<lambda>d. length (filter (\<lambda>a. ar_artist_id a = Some k)
                                               (get_or [] (c_artists d)))) ds) else 0)"
  by (induction ds arbitrary: m)
     (simp_all add: count_concert_artists_def count_of_fold_count_artist)

lemma count_of_artist_concert_counts:
  "count_of (artist_concert_counts acd) k = (if k \<noteq> [] then memberships acd k else 0)"
  by (simp add: artist_concert_counts_def count_of_fold_concert_artists count_of_Nil
      memberships_def comp_def)

lemma count_of_count_concert_venue:
  "count_of (count_concert_venue d m) k =
     count_of m k + (if k \<noteq> [] \<and> c_venue_id d = Some k then 1 else 0)"
  by (cases "c_venue_id d") (auto simp: count_concert_venue_def truthy_def get_or_def count_of_incr)

lemma count_of_fold_concert_venue:
  "count_of (fold count_concert_venue ds m) k =
     count_of m k + (if k \<noteq> [] then length (filter (\<lambda>d. c_venue_id d = Some k) ds) else 0)"
  by (induction ds arbitrary: m) (simp_all add: count_of_count_concert_venue)

lemma count_of_venue_concert_counts:
  "count_of (venue_concert_counts acd) k = (if k \<noteq> [] then concerts_at acd k else 0)"
  by (simp add: venue_concert_counts_def count_of_fold_concert_venue count_of_Nil
      concerts_at_def filter_map comp_def)

lemma artist_entries_props:
  assumes "e \<in> set (artist_entries acd names_map)"
  shows "(aj_id e, aj_name e) \<in> set names_map \<and> aj_id e \<noteq> [] \<and>
         aj_concert_count e = memberships acd (aj_id e) \<and> 0 < aj_concert_count e"
proof -
  from assms obtain item where item: "item \<in> set names_map"
      "0 < count_of (artist_concert_counts acd) (fst item)"
      and e: "e = \<lparr> aj_id = fst item, aj_name = snd item,
                     aj_concert_count = count_of (artist_concert_counts acd) (fst item) \<rparr>"
    unfolding artist_entries_def by auto
  from item(2) have ne: "fst item \<noteq> []"
    unfolding count_of_artist_concert_counts by (simp split: if_splits)
  then have c: "count_of (artist_concert_counts acd) (fst item) = memberships acd (fst item)"
    unfolding count_of_artist_concert_counts by simp
  show ?thesis unfolding e using item ne c by simp
qed

lemma artist_entries_ids:
  "map aj_id (artist_entries acd names_map) =
     filter (\<lambda>k. k \<noteq> [] \<and> 0 < memberships acd k) (map fst names_map)"
proof -
  have "(0 < count_of (artist_concert_counts acd) k) = (k \<noteq> [] \<and> 0 < memberships acd k)" for k
    unfolding count_of_artist_concert_counts by simp
  then show ?thesis
    unfolding artist_entries_def by (simp add: filter_map comp_def)
qed

lemma venue_entries_props:
  assumes "e \<in> set (venue_entries acd vmap)"
  shows "vj_id e \<in> fst ` set vmap \<and> vj_id e \<noteq> [] \<and>
         vj_concert_count e = concerts_at acd (vj_id e) \<and> 0 < vj_concert_count e"
proof -
  from assms obtain item where item: "item \<in> set vmap"
      "0 < count_of (venue_concert_counts acd) (fst item)"
      and e: "vj_id e = fst item" "vj_concert_count e = count_of (venue_concert_counts acd) (fst item)"
    unfolding venue_entries_def by auto
  from item(2) have ne: "fst item \<noteq> []"
    unfolding count_of_venue_concert_counts by (simp split: if_splits)
  then have c: "count_of (venue_concert_counts acd) (fst item) = concerts_at acd (fst item)"
    unfolding count_of_venue_concert_counts by simp
  show ?thesis unfolding e using item ne c by simp
qed

lemma venue_entries_ids:
  "map vj_id (venue_entries acd vmap) =
     filter (\<lambda>k. k \<noteq> [] \<and> 0 < concerts_at acd k) (map fst vmap)"
proof -
  have "(0 < count_of (venue_concert_counts acd) k) = (k \<noteq> [] \<and> 0 < concerts_at acd k)" for k
    unfolding count_of_venue_concert_counts by simp
  then show ?thesis
    unfolding venue_entries_def by (simp add: filter_map comp_def)
qed

lemma distinct_map_sort_key:
  "distinct (map g (sort_key f xs)) = distinct (map g xs)"
proof -
  have "mset (map g (sort_key f xs)) = mset (map g xs)" by simp
  then show ?thesis by (rule mset_eq_imp_distinct_iff)
qed

lemma artists_json_entries:
  assumes "e \<in> set (artists_json acd artist_docs)"
  shows "aj_id e \<in> fst ` set artist_docs \<and> aj_id e \<noteq> [] \<and>
         aj_concert_count e = memberships acd (aj_id e) \<and> 0 < aj_concert_count e"
proof -
  from assms have "e \<in> set (artist_entries acd (artist_names_map artist_docs))"
    by (simp add: artists_json_def)
  from artist_entries_props[OF this]
  have p: "(aj_id e, aj_name e) \<in> set (artist_names_map artist_docs)" "aj_id e \<noteq> []"
    "aj_concert_count e = memberships acd (aj_id e)" "0 < aj_concert_count e" by blast+
  from p(1) have "aj_id e \<in> fst ` set (artist_names_map artist_docs)" by (rule rev_image_eqI) simp
  then have "aj_id e \<in> fst ` set artist_docs"
    unfolding artist_names_map_def keys_dict_of by (auto simp: image_image)
  with p show ?thesis by blast
qed

lemma artists_json_ids:
  "aj_id ` set (artists_json acd artist_docs) =
     {k \<in> fst ` set artist_docs. k \<noteq> [] \<and> 0 < memberships acd k}"
proof -
  have keys: "fst ` set (artist_names_map artist_docs) = fst ` set artist_docs"
    unfolding artist_names_map_def keys_dict_of by (simp add: image_image)
  have "aj_id ` set (artists_json acd artist_docs) =
      set (map aj_id (artist_entries acd (artist_names_map artist_docs)))"
    by (simp add: artists_json_def)
  also have "\<dots> = {k \<in> fst ` set (artist_names_map artist_docs). k \<noteq> [] \<and> 0 < memberships acd k}"
    unfolding artist_entries_ids by auto
  finally show ?thesis unfolding keys .
qed

lemma artists_json_distinct: "distinct (map aj_id (artists_json acd artist_docs))"
proof -
  have "distinct (map fst (artist_names_map artist_docs))"
    unfolding artist_names_map_def by (rule distinct_dict_of)
  then have "distinct (map aj_id (artist_entries acd (artist_names_map artist_docs)))"
    unfolding artist_entries_ids by (rule distinct_filter)
  then show ?thesis unfolding artists_json_def distinct_map_sort_key .
qed

lemma artists_json_order:
  assumes "i < j" and "j < length (artists_json acd artist_docs)"
  shows "aj_concert_count (artists_json acd artist_docs ! j) <
           aj_concert_count (artists_json acd artist_docs ! i) \<or>
         (aj_concert_count (artists_json acd artist_docs ! i) =
            aj_concert_count (artists_json acd artist_docs ! j) \<and>
          aj_name (artists_json acd artist_docs ! i) \<le> aj_name (artists_json acd artist_docs ! j))"
proof -
  let ?A = "artists_json acd artist_docs"
  have srt: "sorted (map artist_sort_key ?A)"
    unfolding artists_json_def by (rule sorted_sort_key)
  from assms have j: "j < length (map artist_sort_key ?A)" and i: "i < length ?A" by simp_all
  from sorted_pairs_nth[OF srt assms(1) j] show ?thesis
    using i assms(2) by (auto simp: artist_sort_key_def)
qed

lemma venues_json_entries:
  assumes "e \<in> set (venues_json acd venue_docs)"
  shows "vj_id e \<in> fst ` set venue_docs \<and> vj_id e \<noteq> [] \<and>
         vj_concert_count e = concerts_at acd (vj_id e) \<and> 0 < vj_concert_count e"
proof -
  from assms have "e \<in> set (venue_entries acd (venue_data_map venue_docs))"
    by (simp add: venues_json_def)
  from venue_entries_props[OF this] show ?thesis
    unfolding venue_data_map_def keys_dict_of .
qed

lemma venues_json_ids:
  "vj_id ` set (venues_json acd venue_docs) =
     {k \<in> fst ` set venue_docs. k \<noteq> [] \<and> 0 < concerts_at acd k}"
proof -
  have "vj_id ` set (venues_json acd venue_docs) =
      set (map vj_id (venue_entries acd (venue_data_map venue_docs)))"
    by (simp add: venues_json_def)
  also have "\<dots> = {k \<in> fst ` set (venue_data_map venue_docs). k \<noteq> [] \<and> 0 < concerts_at acd k}"
    unfolding venue_entries_ids by auto
  finally show ?thesis unfolding venue_data_map_def keys_dict_of .
qed

lemma venues_json_distinct: "distinct (map vj_id (venues_json acd venue_docs))"
proof -
  have "distinct (map fst (venue_data_map venue_docs))"
    unfolding venue_data_map_def by (rule distinct_dict_of)
  then have "distinct (map vj_id (venue_entries acd (venue_data_map venue_docs)))"
    unfolding venue_entries_ids by (rule distinct_filter)
  then show ?thesis unfolding venues_json_def distinct_map_sort_key .
qed

lemma venues_json_order:
  assumes "i < j" and "j < length (venues_json acd venue_docs)"
  shows "vj_concert_count (venues_json acd venue_docs ! j) <
           vj_concert_count (venues_json acd venue_docs ! i) \<or>
         (vj_concert_count (venues_json acd venue_docs ! i) =
            vj_concert_count (venues_json acd venue_docs ! j) \<and>
          vj_name (venues_json acd venue_docs ! i) \<le> vj_name (venues_json acd venue_docs ! j))"
proof -
  let ?V = "venues_json acd venue_docs"
  have srt: "sorted (map venue_sort_key ?V)"
    unfolding venues_json_def by (rule sorted_sort_key)
  from assms have j: "j < length (map venue_sort_key ?V)" and i: "i < length ?V" by simp_all
  from sorted_pairs_nth[OF srt assms(1) j] show ?thesis
    using i assms(2) by (auto simp: venue_sort_key_def)
qed

text \<open>
  Claim C8. In \<^verbatim>\<open>artists.json\<close> every entry's \<^verbatim>\<open>concert_count\<close> is the
  number of roster entries, over the loaded concerts and in any role, that carry the
  artist's id, and it is positive; the artists listed are exactly the artist documents
  with at least one such entry, each once. In \<^verbatim>\<open>venues.json\<close> the count is the
  number of loaded concerts at the venue, with the same filter. In both files an earlier
  entry has a greater count than a later one, or the same count and a name that is not
  greater in the order of strings by character code.
\<close>

theorem concert_counts_of_artists_and_venues:
  "(\<forall>e\<in>set (artists_json acd artist_docs).
      aj_concert_count e = memberships acd (aj_id e) \<and> 0 < aj_concert_count e) \<and>
   aj_id ` set (artists_json acd artist_docs) =
     {k \<in> fst ` set artist_docs. k \<noteq> [] \<and> 0 < memberships acd k} \<and>
   distinct (map aj_id (artists_json acd artist_docs)) \<and>
   (\<forall>i j. i < j \<and> j < length (artists_json acd artist_docs) \<longrightarrow>
      aj_concert_count (artists_json acd artist_docs ! j) <
        aj_concert_count (artists_json acd artist_docs ! i) \<or>
      (aj_concert_count (artists_json acd artist_docs ! i) =
         aj_concert_count (artists_json acd artist_docs ! j) \<and>
       aj_name (artists_json acd artist_docs ! i) \<le> aj_name (artists_json acd artist_docs ! j))) \<and>
   (\<forall>e\<in>set (venues_json acd venue_docs).
      vj_concert_count e = concerts_at acd (vj_id e) \<and> 0 < vj_concert_count e) \<and>
   vj_id ` set (venues_json acd venue_docs) =
     {k \<in> fst ` set venue_docs. k \<noteq> [] \<and> 0 < concerts_at acd k} \<and>
   distinct (map vj_id (venues_json acd venue_docs)) \<and>
   (\<forall>i j. i < j \<and> j < length (venues_json acd venue_docs) \<longrightarrow>
      vj_concert_count (venues_json acd venue_docs ! j) <
        vj_concert_count (venues_json acd venue_docs ! i) \<or>
      (vj_concert_count (venues_json acd venue_docs ! i) =
         vj_concert_count (venues_json acd venue_docs ! j) \<and>
       vj_name (venues_json acd venue_docs ! i) \<le> vj_name (venues_json acd venue_docs ! j)))"
proof -
  have a1: "\<forall>e\<in>set (artists_json acd artist_docs).
      aj_concert_count e = memberships acd (aj_id e) \<and> 0 < aj_concert_count e"
    using artists_json_entries by blast
  have v1: "\<forall>e\<in>set (venues_json acd venue_docs).
      vj_concert_count e = concerts_at acd (vj_id e) \<and> 0 < vj_concert_count e"
    using venues_json_entries by blast
  have a4: "\<forall>i j. i < j \<and> j < length (artists_json acd artist_docs) \<longrightarrow>
      aj_concert_count (artists_json acd artist_docs ! j) <
        aj_concert_count (artists_json acd artist_docs ! i) \<or>
      (aj_concert_count (artists_json acd artist_docs ! i) =
         aj_concert_count (artists_json acd artist_docs ! j) \<and>
       aj_name (artists_json acd artist_docs ! i) \<le> aj_name (artists_json acd artist_docs ! j))"
    using artists_json_order by blast
  have v4: "\<forall>i j. i < j \<and> j < length (venues_json acd venue_docs) \<longrightarrow>
      vj_concert_count (venues_json acd venue_docs ! j) <
        vj_concert_count (venues_json acd venue_docs ! i) \<or>
      (vj_concert_count (venues_json acd venue_docs ! i) =
         vj_concert_count (venues_json acd venue_docs ! j) \<and>
       vj_name (venues_json acd venue_docs ! i) \<le> vj_name (venues_json acd venue_docs ! j))"
    using venues_json_order by blast
  show ?thesis
    by (intro conjI a1 artists_json_ids artists_json_distinct a4 v1 venues_json_ids
        venues_json_distinct v4)
qed

theorem concert_counts_of_artists_and_venues_witness:
  "(\<exists>e\<in>set (artists_json (all_concerts_data [(''c1'', night_1), (''c2'', night_2)]) artist_documents).
      aj_id e = ''a2'' \<and> aj_concert_count e = 2) \<and>
   ''a3'' \<notin> aj_id ` set (artists_json (all_concerts_data [(''c1'', night_1), (''c2'', night_2)])
                            artist_documents) \<and>
   (\<exists>v\<in>set (venues_json (all_concerts_data [(''c1'', night_1), (''c2'', night_2)]) venue_documents).
      vj_id v = ''v1'' \<and> vj_concert_count v = 2)"
proof -
  let ?acd = "all_concerts_data [(''c1'', night_1), (''c2'', night_2)]"
  have m2: "memberships ?acd ''a2'' = 2" by code_simp
  have m3: "memberships ?acd ''a3'' = 0" by code_simp
  have c1: "concerts_at ?acd ''v1'' = 2" by code_simp
  have d2: "''a2'' \<in> fst ` set artist_documents" by code_simp
  have d1: "''v1'' \<in> fst ` set venue_documents" by code_simp
  note main = concert_counts_of_artists_and_venues[of ?acd artist_documents venue_documents]
  from main m2 d2 have "''a2'' \<in> aj_id ` set (artists_json ?acd artist_documents)" by simp
  then obtain e where e: "e \<in> set (artists_json ?acd artist_documents)" "aj_id e = ''a2''" by auto
  with main m2 have ec: "aj_concert_count e = 2" by auto
  from main m3 have a3: "''a3'' \<notin> aj_id ` set (artists_json ?acd artist_documents)" by simp
  from main c1 d1 have "''v1'' \<in> vj_id ` set (venues_json ?acd venue_documents)" by simp
  then obtain v where v: "v \<in> set (venues_json ?acd venue_documents)" "vj_id v = ''v1''" by auto
  with main c1 have vc: "vj_concert_count v = 2" by auto
  from e ec a3 v vc show ?thesis by blast
qed

subsection \<open>The setlist flag in the detail files\<close>

lemma concerts_at_venue_entry:
  assumes "e \<in> set (concerts_at_venue acd venue_id)"
  shows "\<exists>item\<in>set acd. c_venue_id (snd item) = Some venue_id \<and> ve_id e = fst item \<and>
           ve_has_setlist e = get_or False (c_has_setlist (snd item))"
proof -
  from assms obtain item where "item \<in> set acd" "c_venue_id (snd item) = Some venue_id"
      "e = venue_concert_of item"
    unfolding concerts_at_venue_def set_sort_key_desc by auto
  then show ?thesis by (auto simp: venue_concert_of_def)
qed

lemma venue_details_file:
  assumes "file \<in> set (venue_details acd venue_docs)"
  shows "vdt_concerts (snd file) = concerts_at_venue acd (fst file)"
proof -
  from assms obtain item where "file \<in> set (venue_detail_file acd item)"
    unfolding venue_details_def by auto
  then show ?thesis by (auto simp: venue_detail_file_def split: if_splits)
qed

lemma artist_concert_of_entry:
  assumes "e \<in> set (artist_concert_of artist_id item)"
  shows "ae_id e = fst item \<and> ae_has_setlist e = get_or False (c_has_setlist (snd item))"
  using assms by (auto simp: artist_concert_of_def split: option.splits)

lemma concerts_for_artist_entry:
  assumes "e \<in> set (concerts_for_artist acd artist_id)"
  shows "\<exists>item\<in>set acd. ae_id e = fst item \<and>
           ae_has_setlist e = get_or False (c_has_setlist (snd item))"
proof -
  from assms obtain item where "item \<in> set acd" "e \<in> set (artist_concert_of artist_id item)"
    unfolding concerts_for_artist_def set_sort_key_desc by auto
  with artist_concert_of_entry show ?thesis by blast
qed

lemma artist_details_file:
  assumes "file \<in> set (artist_details acd sls artist_docs)"
  shows "adt_concerts (snd file) = concerts_for_artist acd (fst file)"
proof -
  from assms obtain item where "file \<in> set (artist_detail_file acd sls item)"
    unfolding artist_details_def by auto
  then show ?thesis by (auto simp: artist_detail_file_def split: if_splits)
qed

lemma artist_detail_file_concerts:
  "map (\<lambda>file. (fst file, adt_concerts (snd file))) (artist_detail_file acd sls item) =
     (if concerts_for_artist acd (fst item) = [] then []
      else [(fst item, concerts_for_artist acd (fst item))])"
  by (simp add: artist_detail_file_def)

lemma artist_details_concerts:
  "map (\<lambda>file. (fst file, adt_concerts (snd file))) (artist_details acd sls artist_docs) =
   map (\<lambda>file. (fst file, adt_concerts (snd file))) (artist_details acd [] artist_docs)"
  by (simp add: artist_details_def map_concat comp_def artist_detail_file_concerts)

text \<open>
  Claim C9. In every file of \<^verbatim>\<open>venue_details/\<close> and of \<^verbatim>\<open>artist_details/\<close>
  each listed concert is a loaded concert and its \<^verbatim>\<open>has_setlist\<close> is the field
  \<^verbatim>\<open>has_setlist\<close> stored in the concert document, false when the field is absent; the
  concerts of the artist files are the same whatever the setlists are. For the concert
  \<open>c1\<close>, which stores no such field and has a setlist, \<^verbatim>\<open>concerts.json\<close> says
  \<^verbatim>\<open>hasSetlist\<close> true while the venue file and the artist file say
  \<^verbatim>\<open>has_setlist\<close> false.
\<close>

theorem detail_has_setlist_is_stored_field:
  "(\<forall>file\<in>set (venue_details acd venue_docs). \<forall>e\<in>set (vdt_concerts (snd file)).
      \<exists>item\<in>set acd. ve_id e = fst item \<and>
        ve_has_setlist e = get_or False (c_has_setlist (snd item))) \<and>
   (\<forall>file\<in>set (artist_details acd sls artist_docs). \<forall>e\<in>set (adt_concerts (snd file)).
      \<exists>item\<in>set acd. ae_id e = fst item \<and>
        ae_has_setlist e = get_or False (c_has_setlist (snd item))) \<and>
   map (\<lambda>file. (fst file, adt_concerts (snd file))) (artist_details acd sls artist_docs) =
     map (\<lambda>file. (fst file, adt_concerts (snd file))) (artist_details acd [] artist_docs) \<and>
   (\<exists>row\<in>set (concerts_json [(''c1'', night_1)] [opener_set ''c1'']).
      row_id row = ''c1'' \<and> row_hasSetlist row) \<and>
   (\<exists>file\<in>set (venue_details (all_concerts_data [(''c1'', night_1)]) venue_documents).
      \<exists>e\<in>set (vdt_concerts (snd file)). ve_id e = ''c1'' \<and> \<not> ve_has_setlist e) \<and>
   (\<exists>file\<in>set (artist_details (all_concerts_data [(''c1'', night_1)]) [opener_set ''c1'']
                   artist_documents).
      \<exists>e\<in>set (adt_concerts (snd file)). ae_id e = ''c1'' \<and> \<not> ae_has_setlist e)"
proof -
  have v: "\<forall>file\<in>set (venue_details acd venue_docs). \<forall>e\<in>set (vdt_concerts (snd file)).
      \<exists>item\<in>set acd. ve_id e = fst item \<and>
        ve_has_setlist e = get_or False (c_has_setlist (snd item))"
  proof (intro ballI)
    fix fl e
    assume "fl \<in> set (venue_details acd venue_docs)" and "e \<in> set (vdt_concerts (snd fl))"
    then have "e \<in> set (concerts_at_venue acd (fst fl))" by (simp add: venue_details_file)
    from concerts_at_venue_entry[OF this]
    show "\<exists>item\<in>set acd. ve_id e = fst item \<and>
        ve_has_setlist e = get_or False (c_has_setlist (snd item))" by blast
  qed
  have a: "\<forall>file\<in>set (artist_details acd sls artist_docs). \<forall>e\<in>set (adt_concerts (snd file)).
      \<exists>item\<in>set acd. ae_id e = fst item \<and>
        ae_has_setlist e = get_or False (c_has_setlist (snd item))"
  proof (intro ballI)
    fix fl e
    assume "fl \<in> set (artist_details acd sls artist_docs)" and "e \<in> set (adt_concerts (snd fl))"
    then have "e \<in> set (concerts_for_artist acd (fst fl))" by (simp add: artist_details_file)
    then show "\<exists>item\<in>set acd. ae_id e = fst item \<and>
        ae_has_setlist e = get_or False (c_has_setlist (snd item))"
      by (rule concerts_for_artist_entry)
  qed
  have x1: "\<exists>row\<in>set (concerts_json [(''c1'', night_1)] [opener_set ''c1'']).
      row_id row = ''c1'' \<and> row_hasSetlist row"
    by code_simp
  have x2: "\<exists>file\<in>set (venue_details (all_concerts_data [(''c1'', night_1)]) venue_documents).
      \<exists>e\<in>set (vdt_concerts (snd file)). ve_id e = ''c1'' \<and> \<not> ve_has_setlist e"
    by code_simp
  have x3: "\<exists>file\<in>set (artist_details (all_concerts_data [(''c1'', night_1)]) [opener_set ''c1'']
                   artist_documents).
      \<exists>e\<in>set (adt_concerts (snd file)). ae_id e = ''c1'' \<and> \<not> ae_has_setlist e"
    by code_simp
  show ?thesis by (intro conjI v a artist_details_concerts x1 x2 x3)
qed

theorem detail_has_setlist_is_stored_field_witness:
  "(\<exists>file\<in>set (venue_details (all_concerts_data [(''c1'', night_1\<lparr>c_has_setlist := Some True\<rparr>)])
                   venue_documents).
      \<exists>e\<in>set (vdt_concerts (snd file)).
        \<exists>item\<in>set (all_concerts_data [(''c1'', night_1\<lparr>c_has_setlist := Some True\<rparr>)]).
          ve_id e = fst item \<and> ve_has_setlist e = get_or False (c_has_setlist (snd item))) \<and>
   (\<exists>file\<in>set (artist_details (all_concerts_data [(''c1'', night_1\<lparr>c_has_setlist := Some True\<rparr>)])
                   [] artist_documents).
      \<exists>e\<in>set (adt_concerts (snd file)).
        \<exists>item\<in>set (all_concerts_data [(''c1'', night_1\<lparr>c_has_setlist := Some True\<rparr>)]).
          ae_id e = fst item \<and> ae_has_setlist e = get_or False (c_has_setlist (snd item)))"
proof -
  let ?acd = "all_concerts_data [(''c1'', night_1\<lparr>c_has_setlist := Some True\<rparr>)]"
  have v: "\<exists>file\<in>set (venue_details ?acd venue_documents). \<exists>e\<in>set (vdt_concerts (snd file)). True"
    by code_simp
  have a: "\<exists>file\<in>set (artist_details ?acd [] artist_documents).
             \<exists>e\<in>set (adt_concerts (snd file)). True"
    by code_simp
  from detail_has_setlist_is_stored_field[of ?acd venue_documents "[]" artist_documents] v a
  show ?thesis by blast
qed

subsection \<open>Opening, encore and closing songs by artist\<close>

lemma count2_of_incr2:
  "count2_of (incr2 a k m) a' k' = count2_of m a' k' + (if a' = a \<and> k' = k then 1 else 0)"
proof (induction m)
  case Nil
  show ?case by (simp add: count2_of_def count_of_def)
next
  case (Cons p m)
  then show ?case by (cases p) (auto simp: count2_of_def count_of_incr)
qed

lemma with_name_Nil: "with_name an [] = 0"
  by (simp add: with_name_def)

lemma with_name_Cons:
  "with_name an (a # as) = (if get_or [] (ar_artist_name a) = an then 1 else 0) + with_name an as"
  by (simp add: with_name_def)

lemma tables_credit_song:
  "count2_of (st_opening_songs (credit_song g a t)) an nm =
     count2_of (st_opening_songs t) an nm +
     (if is_opening g \<and> get_or [] (sg_name g) = nm \<and> get_or [] (ar_artist_name a) = an
      then 1 else 0)"
  "count2_of (st_encore_songs (credit_song g a t)) an nm =
     count2_of (st_encore_songs t) an nm +
     (if 0 < get_or 0 (sg_encore g) \<and> get_or [] (sg_name g) = nm \<and>
         get_or [] (ar_artist_name a) = an
      then 1 else 0)"
  "st_closing_songs (credit_song g a t) = st_closing_songs t"
  by (auto simp: credit_song_def Let_def count2_of_incr2)

lemma tables_fold_credit_song:
  "count2_of (st_opening_songs (fold (credit_song g) as t)) an nm =
     count2_of (st_opening_songs t) an nm +
     (if is_opening g \<and> get_or [] (sg_name g) = nm then with_name an as else 0)"
  "count2_of (st_encore_songs (fold (credit_song g) as t)) an nm =
     count2_of (st_encore_songs t) an nm +
     (if 0 < get_or 0 (sg_encore g) \<and> get_or [] (sg_name g) = nm then with_name an as else 0)"
  "st_closing_songs (fold (credit_song g) as t) = st_closing_songs t"
proof (induction as arbitrary: t)
  case Nil
  case 1 show ?case by (simp add: with_name_Nil)
  case 2 show ?case by (simp add: with_name_Nil)
  case 3 show ?case by simp
next
  case (Cons a as)
  case 1 show ?case
    using Cons.IH(1)[of "credit_song g a t"] tables_credit_song(1)[of g a t an nm]
    by (simp add: with_name_Cons)
  case 2 show ?case
    using Cons.IH(2)[of "credit_song g a t"] tables_credit_song(2)[of g a t an nm]
    by (simp add: with_name_Cons)
  case 3 show ?case
    using Cons.IH(3)[of "credit_song g a t"] tables_credit_song(3)[of g a t]
    by simp
qed

lemma tables_count_song:
  "count2_of (st_opening_songs (count_song primary g t)) an nm =
     count2_of (st_opening_songs t) an nm + (if opening_named nm g then with_name an primary else 0)"
  "count2_of (st_encore_songs (count_song primary g t)) an nm =
     count2_of (st_encore_songs t) an nm + (if encore_named nm g then with_name an primary else 0)"
  "st_closing_songs (count_song primary g t) = st_closing_songs t"
  by (simp_all add: count_song_def Let_def tables_fold_credit_song opening_named_def
      encore_named_def)

lemma tables_fold_count_song:
  "count2_of (st_opening_songs (fold (count_song primary) gs t)) an nm =
     count2_of (st_opening_songs t) an nm +
       length (filter (opening_named nm) gs) * with_name an primary"
  "count2_of (st_encore_songs (fold (count_song primary) gs t)) an nm =
     count2_of (st_encore_songs t) an nm +
       length (filter (encore_named nm) gs) * with_name an primary"
  "st_closing_songs (fold (count_song primary) gs t) = st_closing_songs t"
proof (induction gs arbitrary: t)
  case Nil
  case 1 show ?case by simp
  case 2 show ?case by simp
  case 3 show ?case by simp
next
  case (Cons g gs)
  case 1 show ?case
    using Cons.IH(1)[of "count_song primary g t"] tables_count_song(1)[of primary g t an nm]
    by simp
  case 2 show ?case
    using Cons.IH(2)[of "count_song primary g t"] tables_count_song(2)[of primary g t an nm]
    by simp
  case 3 show ?case
    using Cons.IH(3)[of "count_song primary g t"] tables_count_song(3)[of primary g t]
    by simp
qed

lemma tables_fold_credit_closing:
  "count2_of (st_closing_songs (fold (credit_closing nm0) as t)) an nm =
     count2_of (st_closing_songs t) an nm + (if nm = nm0 then with_name an as else 0)"
  "st_opening_songs (fold (credit_closing nm0) as t) = st_opening_songs t"
  "st_encore_songs (fold (credit_closing nm0) as t) = st_encore_songs t"
proof (induction as arbitrary: t)
  case Nil
  case 1 show ?case by (simp add: with_name_Nil)
  case 2 show ?case by simp
  case 3 show ?case by simp
next
  case (Cons a as)
  case 1 show ?case
    using Cons.IH(1)[of "credit_closing nm0 a t"]
    by (simp add: with_name_Cons credit_closing_def count2_of_incr2)
  case 2 show ?case
    using Cons.IH(2)[of "credit_closing nm0 a t"] by (simp add: credit_closing_def)
  case 3 show ?case
    using Cons.IH(3)[of "credit_closing nm0 a t"] by (simp add: credit_closing_def)
qed

lemma tables_count_closing:
  "count2_of (st_closing_songs (count_closing primary songs t)) an nm =
     count2_of (st_closing_songs t) an nm + (if closes_with songs nm then with_name an primary else 0)"
  "st_opening_songs (count_closing primary songs t) = st_opening_songs t"
  "st_encore_songs (count_closing primary songs t) = st_encore_songs t"
  by (auto simp: count_closing_def closes_with_def tables_fold_credit_closing split: option.split)

lemma credits_lookup:
  "sl_concert_id s = Some cid \<Longrightarrow> map_of acd cid = Some d \<Longrightarrow>
     credits acd s an = with_name an (primary_artists d)"
  "sl_concert_id s = None \<Longrightarrow> credits acd s an = 0"
  "sl_concert_id s = Some cid \<Longrightarrow> map_of acd cid = None \<Longrightarrow> credits acd s an = 0"
  by (simp_all add: credits_def with_name_def)

lemma tables_analyse_setlist:
  "count2_of (st_opening_songs (analyse_setlist acd s t)) an nm =
     count2_of (st_opening_songs t) an nm +
       length (filter (opening_named nm) (get_or [] (sl_songs s))) * credits acd s an"
  "count2_of (st_encore_songs (analyse_setlist acd s t)) an nm =
     count2_of (st_encore_songs t) an nm +
       length (filter (encore_named nm) (get_or [] (sl_songs s))) * credits acd s an"
  "count2_of (st_closing_songs (analyse_setlist acd s t)) an nm =
     count2_of (st_closing_songs t) an nm +
       (if closes_with (get_or [] (sl_songs s)) nm then credits acd s an else 0)"
proof -
  consider (none) "sl_concert_id s = None"
    | (orphan) cid where "sl_concert_id s = Some cid" "map_of acd cid = None"
    | (found) cid d where "sl_concert_id s = Some cid" "map_of acd cid = Some d"
    by (cases "sl_concert_id s") auto
  then have "count2_of (st_opening_songs (analyse_setlist acd s t)) an nm =
     count2_of (st_opening_songs t) an nm +
       length (filter (opening_named nm) (get_or [] (sl_songs s))) * credits acd s an \<and>
    count2_of (st_encore_songs (analyse_setlist acd s t)) an nm =
     count2_of (st_encore_songs t) an nm +
       length (filter (encore_named nm) (get_or [] (sl_songs s))) * credits acd s an \<and>
    count2_of (st_closing_songs (analyse_setlist acd s t)) an nm =
     count2_of (st_closing_songs t) an nm +
       (if closes_with (get_or [] (sl_songs s)) nm then credits acd s an else 0)"
  proof cases
    case none
    then show ?thesis by (simp add: analyse_setlist_def credits_lookup)
  next
    case orphan
    then show ?thesis by (simp add: analyse_setlist_def credits_lookup)
  next
    case found
    then show ?thesis
      by (simp add: analyse_setlist_def credits_lookup tables_count_closing tables_fold_count_song)
  qed
  then show
    "count2_of (st_opening_songs (analyse_setlist acd s t)) an nm =
     count2_of (st_opening_songs t) an nm +
       length (filter (opening_named nm) (get_or [] (sl_songs s))) * credits acd s an"
    "count2_of (st_encore_songs (analyse_setlist acd s t)) an nm =
     count2_of (st_encore_songs t) an nm +
       length (filter (encore_named nm) (get_or [] (sl_songs s))) * credits acd s an"
    "count2_of (st_closing_songs (analyse_setlist acd s t)) an nm =
     count2_of (st_closing_songs t) an nm +
       (if closes_with (get_or [] (sl_songs s)) nm then credits acd s an else 0)"
    by blast+
qed

lemma tables_fold_analyse:
  "count2_of (st_opening_songs (fold (analyse_setlist acd) sls t)) an nm =
     count2_of (st_opening_songs t) an nm +
       sum_list (map (\<lambda>s. length (filter (opening_named nm) (get_or [] (sl_songs s))) *
                            credits acd s an) sls)"
  "count2_of (st_encore_songs (fold (analyse_setlist acd) sls t)) an nm =
     count2_of (st_encore_songs t) an nm +
       sum_list (map (\<lambda>s. length (filter (encore_named nm) (get_or [] (sl_songs s))) *
                            credits acd s an) sls)"
  "count2_of (st_closing_songs (fold (analyse_setlist acd) sls t)) an nm =
     count2_of (st_closing_songs t) an nm +
       sum_list (map (\<lambda>s. if closes_with (get_or [] (sl_songs s)) nm then credits acd s an else 0)
                   sls)"
proof (induction sls arbitrary: t)
  case Nil
  case 1 show ?case by simp
  case 2 show ?case by simp
  case 3 show ?case by simp
next
  case (Cons s sls)
  case 1 show ?case
    using Cons.IH(1)[of "analyse_setlist acd s t"] tables_analyse_setlist(1)[of acd s t an nm]
    by simp
  case 2 show ?case
    using Cons.IH(2)[of "analyse_setlist acd s t"] tables_analyse_setlist(2)[of acd s t an nm]
    by simp
  case 3 show ?case
    using Cons.IH(3)[of "analyse_setlist acd s t"] tables_analyse_setlist(3)[of acd s t an nm]
    by simp
qed

lemma count2_of_Nil: "count2_of [] a k = 0"
  by (simp add: count2_of_def)

lemma analyse_setlist_artist_fields:
  "analyse_setlist acd (s\<lparr>sl_artist_id := i, sl_artist_name := n\<rparr>) = analyse_setlist acd s"
  by (simp add: analyse_setlist_def fun_eq_iff split: option.split)

lemma song_analytics_artist_fields:
  "song_analytics acd (map (\<lambda>s. s\<lparr>sl_artist_id := f s, sl_artist_name := h s\<rparr>) sls) =
     song_analytics acd sls"
proof -
  have "(analyse_setlist acd \<circ> (\<lambda>s. s\<lparr>sl_artist_id := f s, sl_artist_name := h s\<rparr>)) =
      analyse_setlist acd"
    by (simp add: fun_eq_iff analyse_setlist_artist_fields)
  then show ?thesis by (simp add: song_analytics_def fold_map)
qed

text \<open>
  Claim C10. In the tables of opening, encore and closing songs, the count of a song name
  under an artist name is a sum over all setlist documents: each named opening (encore)
  occurrence, and the closing song when it has that name, counts once for every primary
  artist of that name in the roster of the setlist's concert, and not at all for a setlist
  of no loaded concert. The artist of the setlist plays no part: changing the artist id and
  artist name of the setlists leaves all tables as they are. So for the concert \<open>c1\<close>,
  whose only setlist is the opener's, the opener's first song, encore song and closing song
  are counted under the headliner; over two such nights they reach the output tables
  (which keep counts of 2 and more) under the headliner, and the opener has no table.
\<close>

theorem songs_credited_to_primary_artists:
  "count2_of (st_opening_songs (song_analytics acd sls)) an nm =
     sum_list (map (\<lambda>s. length (filter (opening_named nm) (get_or [] (sl_songs s))) *
                          credits acd s an) sls) \<and>
   count2_of (st_encore_songs (song_analytics acd sls)) an nm =
     sum_list (map (\<lambda>s. length (filter (encore_named nm) (get_or [] (sl_songs s))) *
                          credits acd s an) sls) \<and>
   count2_of (st_closing_songs (song_analytics acd sls)) an nm =
     sum_list (map (\<lambda>s. if closes_with (get_or [] (sl_songs s)) nm then credits acd s an else 0)
                 sls) \<and>
   song_analytics acd (map (\<lambda>s. s\<lparr>sl_artist_id := f s, sl_artist_name := h s\<rparr>) sls) =
     song_analytics acd sls \<and>
   sl_artist_name (opener_set ''c1'') = Some ''Opener A'' \<and>
   setlist_role night_1 (opener_set ''c1'') = ''opener'' \<and>
   st_opening_songs (song_analytics (all_concerts_data [(''c1'', night_1)]) [opener_set ''c1'']) =
     [(''Headliner B'', [(''Intro'', 1)])] \<and>
   st_encore_songs (song_analytics (all_concerts_data [(''c1'', night_1)]) [opener_set ''c1'']) =
     [(''Headliner B'', [(''Bis'', 1)])] \<and>
   st_closing_songs (song_analytics (all_concerts_data [(''c1'', night_1)]) [opener_set ''c1'']) =
     [(''Headliner B'', [(''Finale'', 1)])] \<and>
   sd_opening_songs_by_artist
     (songs_json (all_concerts_data [(''c1'', night_1), (''c2'', night_2)])
        [opener_set ''c1'', opener_set ''c2'']) = [(''Headliner B'', [(''Intro'', 2)])] \<and>
   sd_encore_songs_by_artist
     (songs_json (all_concerts_data [(''c1'', night_1), (''c2'', night_2)])
        [opener_set ''c1'', opener_set ''c2'']) = [(''Headliner B'', [(''Bis'', 2)])] \<and>
   sd_closing_songs_by_artist
     (songs_json (all_concerts_data [(''c1'', night_1), (''c2'', night_2)])
        [opener_set ''c1'', opener_set ''c2'']) = [(''Headliner B'', [(''Finale'', 2)])]"
proof -
  have o: "count2_of (st_opening_songs (song_analytics acd sls)) an nm =
     sum_list (map (\<lambda>s. length (filter (opening_named nm) (get_or [] (sl_songs s))) *
                          credits acd s an) sls)"
    unfolding song_analytics_def tables_fold_analyse
    by (simp add: empty_tables_def count2_of_Nil)
  have e: "count2_of (st_encore_songs (song_analytics acd sls)) an nm =
     sum_list (map (\<lambda>s. length (filter (encore_named nm) (get_or [] (sl_songs s))) *
                          credits acd s an) sls)"
    unfolding song_analytics_def tables_fold_analyse
    by (simp add: empty_tables_def count2_of_Nil)
  have c: "count2_of (st_closing_songs (song_analytics acd sls)) an nm =
     sum_list (map (\<lambda>s. if closes_with (get_or [] (sl_songs s)) nm then credits acd s an else 0)
                 sls)"
    unfolding song_analytics_def tables_fold_analyse
    by (simp add: empty_tables_def count2_of_Nil)
  have x0: "sl_artist_name (opener_set ''c1'') = Some ''Opener A''" by code_simp
  have x1: "setlist_role night_1 (opener_set ''c1'') = ''opener''" by code_simp
  have x2: "st_opening_songs (song_analytics (all_concerts_data [(''c1'', night_1)])
      [opener_set ''c1'']) = [(''Headliner B'', [(''Intro'', 1)])]" by code_simp
  have x3: "st_encore_songs (song_analytics (all_concerts_data [(''c1'', night_1)])
      [opener_set ''c1'']) = [(''Headliner B'', [(''Bis'', 1)])]" by code_simp
  have x4: "st_closing_songs (song_analytics (all_concerts_data [(''c1'', night_1)])
      [opener_set ''c1'']) = [(''Headliner B'', [(''Finale'', 1)])]" by code_simp
  have y1: "sd_opening_songs_by_artist
     (songs_json (all_concerts_data [(''c1'', night_1), (''c2'', night_2)])
        [opener_set ''c1'', opener_set ''c2'']) = [(''Headliner B'', [(''Intro'', 2)])]"
    by code_simp
  have y2: "sd_encore_songs_by_artist
     (songs_json (all_concerts_data [(''c1'', night_1), (''c2'', night_2)])
        [opener_set ''c1'', opener_set ''c2'']) = [(''Headliner B'', [(''Bis'', 2)])]"
    by code_simp
  have y3: "sd_closing_songs_by_artist
     (songs_json (all_concerts_data [(''c1'', night_1), (''c2'', night_2)])
        [opener_set ''c1'', opener_set ''c2'']) = [(''Headliner B'', [(''Finale'', 2)])]"
    by code_simp
  show ?thesis
    by (intro conjI o e c song_analytics_artist_fields x0 x1 x2 x3 x4 y1 y2 y3)
qed

end
